theory Spec2Isabelle
  imports Complex_Main "HOL-Library.Word"
begin

section \<open>Common types\<close>

text \<open>
  The OpenGL scalar types of the sources: \<open>GLubyte\<close> is an unsigned 8-bit integer,
  \<open>GLuint\<close> an unsigned 32-bit integer whose arithmetic wraps around. \<open>GLfloat\<close> values
  are kept as real numbers: the rounding of single precision is not part of the model,
  and no property below depends on a rounded value.
\<close>

type_synonym GLubyte = "8 word"
type_synonym GLuint = "32 word"
type_synonym GLfloat = real

text \<open>
  The file system is a partial map from file names to contents; a name outside its
  domain is a file that cannot be opened.
\<close>

type_synonym 'c filesystem = "string \<rightharpoonup> 'c list"

text \<open>
  Both components index \<open>std::vector\<close>s with \<open>operator[]\<close> and compute sizes in \<open>int\<close>.
  An access outside the vector and a signed overflow are undefined behaviour in C++;
  the model makes each of them a result of its own.
\<close>

datatype fault = OutOfBounds | SignedOverflow

type_synonym 'a res = "fault + 'a"

section \<open>Texture.cpp: the TGA decoder\<close>

record ImageData =
  width :: GLuint
  height :: GLuint
  type :: GLuint
  data :: "GLubyte list"

text \<open>The value-initialised \<open>ImageData\<close> that every failure path returns (\<open>return {}\<close>).\<close>

definition empty_image :: ImageData where
  "empty_image = \<lparr>width = 0, height = 0, type = 0, data = []\<rparr>"

text \<open>
  \<open>GL_RGB\<close> and \<open>GL_RGBA\<close> come from the OpenGL headers, which are not part of the
  sources; the values are those of the OpenGL specification. \<open>GL_RGB\<close> is the pixel
  type with three bytes per pixel, \<open>GL_RGBA\<close> the one with four.
\<close>

definition GL_RGB :: GLuint where
  "GL_RGB = 0x1907"

definition GL_RGBA :: GLuint where
  "GL_RGBA = 0x1908"

definition uncompressedTGA :: "GLubyte list" where
  "uncompressedTGA = [0, 0, 2, 0, 0, 0, 0, 0, 0, 0, 0, 0]"

definition compressedTGA :: "GLubyte list" where
  "compressedTGA = [0, 0, 10, 0, 0, 0, 0, 0, 0, 0, 0, 0]"

text \<open>
  A dimension of the image, \<open>highbyte * 256 + lowbyte\<close>: the bytes are promoted to
  \<open>int\<close>, and the sum, at most 65535, is stored in a \<open>GLuint\<close>.
\<close>

definition dim16 :: "GLubyte \<Rightarrow> GLubyte \<Rightarrow> GLuint" where
  "dim16 highbyte lowbyte = word_of_nat (unat highbyte * 256 + unat lowbyte)"

text \<open>\<open>std::swap(v[i], v[j])\<close> on a vector, both positions inside it.\<close>

definition swap_at :: "'a list \<Rightarrow> nat \<Rightarrow> nat \<Rightarrow> 'a list" where
  "swap_at xs i j = xs[i := xs ! j, j := xs ! i]"

text \<open>
  The loop \<open>for (cswap = 0; cswap < imageSize; cswap += bytesPerPixel)\<close> that swaps
  \<open>data[cswap]\<close> and \<open>data[cswap + 2]\<close>. The counter is a \<open>size_t\<close> and stays far below
  its 64-bit limit. The loop is entered with \<open>bytesPerPixel\<close> 3 or 4 only; the test
  \<open>0 < bytesPerPixel\<close> is there for the definition to be total.
\<close>

function swap_loop :: "nat \<Rightarrow> nat \<Rightarrow> nat \<Rightarrow> GLubyte list \<Rightarrow> GLubyte list res" where
  "swap_loop bytesPerPixel imageSize cswap d =
     (if cswap < imageSize \<and> 0 < bytesPerPixel then
        (if cswap + 2 < length d
         then swap_loop bytesPerPixel imageSize (cswap + bytesPerPixel) (swap_at d cswap (cswap + 2))
         else Inl OutOfBounds)
      else Inr d)"
  by pat_completeness auto
termination
  by (relation "measure (\<lambda>(b, n, c, d). n - c)") auto

declare swap_loop.simps [simp del]

text \<open>
  \<open>loadUncompressedTGA\<close>. The diagnostics written to \<open>std::cerr\<close> and \<open>std::cout\<close> are
  left out. \<open>istream::read\<close> of \<open>n\<close> bytes fails when fewer than \<open>n\<close> are left, and
  \<open>gcount\<close> is then the number of bytes that were there.
\<close>

definition loadUncompressedTGA :: "GLubyte filesystem \<Rightarrow> string \<Rightarrow> ImageData res" where
  "loadUncompressedTGA fs filename =
     (case fs filename of
        None \<Rightarrow> Inr empty_image
      | Some bytes \<Rightarrow>
          if length bytes < 12 then Inr empty_image
          else
            let tgaheader = take 12 bytes; rest = drop 12 bytes in
            if tgaheader = compressedTGA then Inr empty_image
            else if tgaheader \<noteq> uncompressedTGA then Inr empty_image
            else if length rest < 6 then Inr empty_image
            else
              let header = take 6 rest; pixels = drop 6 rest;
                  w = dim16 (header ! 1) (header ! 0);
                  h = dim16 (header ! 3) (header ! 2) in
              if w \<le> 0 \<or> h \<le> 0 then Inr empty_image
              else
                let bpp = (ucast (header ! 4) :: GLuint);
                    bytesPerPixel = bpp div 8;
                    imageSize = bytesPerPixel * w * h in
                if bpp \<noteq> 24 \<and> bpp \<noteq> 32 then Inr empty_image
                else
                  let ty = (if bpp = 24 then GL_RGB else GL_RGBA);
                      gcount = min (unat imageSize) (length pixels) in
                  if gcount \<noteq> unat imageSize then Inr empty_image
                  else
                    (case swap_loop (unat bytesPerPixel) (unat imageSize) 0 (take (unat imageSize) pixels) of
                       Inl e \<Rightarrow> Inl e
                     | Inr d \<Rightarrow> Inr \<lparr>width = w, height = h, type = ty, data = d\<rparr>))"

section \<open>Vectors and loops\<close>

definition bind_res :: "'a res \<Rightarrow> ('a \<Rightarrow> 'b res) \<Rightarrow> 'b res" where
  "bind_res r f = (case r of Inl e \<Rightarrow> Inl e | Inr x \<Rightarrow> f x)"

text \<open>\<open>v.resize(n)\<close>: the first \<open>n\<close> elements are kept, new elements are zero.\<close>

definition resize :: "nat \<Rightarrow> 'a::zero list \<Rightarrow> 'a list" where
  "resize n xs = take n xs @ replicate (n - length xs) 0"

text \<open>\<open>v[i]\<close> read and \<open>v[i] = x\<close>, with an \<open>int\<close> index as in the sources.\<close>

definition get :: "'a list \<Rightarrow> int \<Rightarrow> 'a res" where
  "get xs i = (if 0 \<le> i \<and> i < int (length xs) then Inr (xs ! nat i) else Inl OutOfBounds)"

definition put :: "'a list \<Rightarrow> int \<Rightarrow> 'a \<Rightarrow> 'a list res" where
  "put xs i x = (if 0 \<le> i \<and> i < int (length xs) then Inr (xs[nat i := x]) else Inl OutOfBounds)"

text \<open>
  A run of assignments to consecutive elements, \<open>v[base] = x0; v[base + 1] = x1; ...\<close>,
  and a run of reads of \<open>n\<close> consecutive elements.
\<close>

definition store :: "'a list \<Rightarrow> int \<Rightarrow> 'a list \<Rightarrow> 'a list res" where
  "store xs base vals =
     (if 0 \<le> base \<and> base + int (length vals) \<le> int (length xs)
      then Inr (take (nat base) xs @ vals @ drop (nat base + length vals) xs)
      else Inl OutOfBounds)"

definition load :: "'a list \<Rightarrow> int \<Rightarrow> nat \<Rightarrow> 'a list res" where
  "load xs base n =
     (if 0 \<le> base \<and> base + int n \<le> int (length xs)
      then Inr (take n (drop (nat base) xs))
      else Inl OutOfBounds)"

text \<open>A \<open>for\<close> loop over the values of its counter; a fault in the body ends it.\<close>

fun for_loop :: "int list \<Rightarrow> (int \<Rightarrow> 's \<Rightarrow> 's res) \<Rightarrow> 's \<Rightarrow> 's res" where
  "for_loop [] body s = Inr s"
| "for_loop (i # is) body s = bind_res (body i s) (for_loop is body)"

text \<open>\<open>for (int i = 0; i < n; i++) dst[i] = src[i];\<close>\<close>

definition copy_loop :: "int \<Rightarrow> 'a list \<Rightarrow> 'a list \<Rightarrow> 'a list res" where
  "copy_loop n src dst = for_loop [0..n - 1] (\<lambda>i d. bind_res (get src i) (put d i)) dst"

text \<open>
  The range of \<open>int\<close>, which has 32 bits on the platforms of these sources; arithmetic
  that leaves it is a signed overflow.
\<close>

definition int_ok :: "int \<Rightarrow> bool" where
  "int_ok x = (- (2 ^ 31) \<le> x \<and> x < 2 ^ 31)"

section \<open>TriangleSoup.cpp: the mesh generator\<close>

text \<open>
  The mesh data of a \<open>TriangleSoup\<close> object. The OpenGL handles \<open>vao_\<close>,
  \<open>vertexbuffer_\<close> and \<open>indexbuffer_\<close> and the calls that upload the arrays to the GPU
  are not modelled: they read the arrays and never change them.
\<close>

record TriangleSoup =
  nverts :: int
  ntris :: int
  vertexarray :: "GLfloat list"
  indexarray :: "GLuint list"

text \<open>The constructor's empty object.\<close>

definition empty_soup :: TriangleSoup where
  "empty_soup = \<lparr>nverts = 0, ntris = 0, vertexarray = [], indexarray = []\<rparr>"

definition clean :: "TriangleSoup \<Rightarrow> TriangleSoup" where
  "clean soup = soup\<lparr>vertexarray := [], indexarray := [], nverts := 0, ntris := 0\<rparr>"

subsection \<open>createTriangle and createBox\<close>

definition triangle_vertex_array_data :: "GLfloat list" where
  "triangle_vertex_array_data =
     [-1, -1, 0, 0, 0, 1, 0, 0,
      1, -1, 0, 0, 0, 1, 1, 0,
      0, 1, 0, 0, 0, 1, 0.5, 1]"

definition triangle_index_array_data :: "GLuint list" where
  "triangle_index_array_data = [0, 1, 2]"

definition createTriangle :: "TriangleSoup \<Rightarrow> TriangleSoup res" where
  "createTriangle soup =
     (let nv = 3; nt = 1;
          va = resize (nat (8 * nv)) (vertexarray soup);
          ia = resize (nat (3 * nt)) (indexarray soup) in
      bind_res (copy_loop (8 * nv) triangle_vertex_array_data va) (\<lambda>va'.
      bind_res (copy_loop (3 * nt) triangle_index_array_data ia) (\<lambda>ia'.
      Inr (soup\<lparr>nverts := nv, ntris := nt, vertexarray := va', indexarray := ia'\<rparr>))))"

definition box_vertex_array_data :: "GLfloat \<Rightarrow> GLfloat \<Rightarrow> GLfloat \<Rightarrow> GLfloat list" where
  "box_vertex_array_data xsize ysize zsize =
     [- xsize, - ysize, - zsize, 0, 0, 1, 0, 0,
      xsize, - ysize, - zsize, 0, 0, 1, 0, 0,
      - xsize, ysize, - zsize, 0, 0, 1, 0, 0,
      xsize, ysize, - zsize, 0, 0, 1, 0, 0,
      - xsize, - ysize, zsize, 0, 0, 1, 0, 0,
      xsize, - ysize, zsize, 0, 0, 1, 0, 0,
      - xsize, ysize, zsize, 0, 0, 1, 0, 0,
      xsize, ysize, zsize, 0, 0, 1, 0, 0]"

definition box_index_array_data :: "GLuint list" where
  "box_index_array_data =
     [0, 3, 1, 0, 2, 3, 1, 4, 0, 1, 5, 4, 4, 2, 0, 4, 6, 2,
      1, 3, 7, 1, 7, 5, 7, 2, 6, 7, 3, 2, 4, 5, 7, 4, 7, 6]"

definition createBox :: "GLfloat \<Rightarrow> GLfloat \<Rightarrow> GLfloat \<Rightarrow> TriangleSoup \<Rightarrow> TriangleSoup res" where
  "createBox xsize ysize zsize soup =
     (let nv = 8; nt = 12;
          va = resize (nat (8 * nv)) (vertexarray soup);
          ia = resize (nat (3 * nt)) (indexarray soup) in
      bind_res (copy_loop (8 * nv) (box_vertex_array_data xsize ysize zsize) va) (\<lambda>va'.
      bind_res (copy_loop (3 * nt) box_index_array_data ia) (\<lambda>ia'.
      Inr (soup\<lparr>nverts := nv, ntris := nt, vertexarray := va', indexarray := ia'\<rparr>))))"

subsection \<open>createSphere\<close>

text \<open>The eight floats of the vertex \<open>i\<close> of latitude ring \<open>j\<close>, written at its \<open>base\<close>.\<close>

definition sphere_vertex :: "GLfloat \<Rightarrow> int \<Rightarrow> int \<Rightarrow> int \<Rightarrow> int \<Rightarrow> GLfloat list \<Rightarrow> GLfloat list res" where
  "sphere_vertex radius vsegs hsegs j i va =
     (let stride = 8;
          theta = real_of_int (j + 1) / real_of_int vsegs * pi;
          z = cos theta;
          R = sin theta;
          phi = real_of_int i / real_of_int hsegs * 2 * pi;
          x = R * cos phi;
          y = R * sin phi;
          base = (1 + j * (hsegs + 1) + i) * stride in
      store va base
        [radius * x, radius * y, radius * z, x, y, z,
         real_of_int i / real_of_int hsegs, 1 - real_of_int (j + 1) / real_of_int vsegs])"

definition sphere_middle :: "int \<Rightarrow> int \<Rightarrow> int \<Rightarrow> GLuint list \<Rightarrow> GLuint list res" where
  "sphere_middle hsegs j i ia =
     (let base = 3 * (hsegs + 2 * (j * hsegs + i));
          i0 = 1 + j * (hsegs + 1) + i in
      store ia base
        (map word_of_int [i0, i0 + hsegs + 1, i0 + 1, i0 + 1, i0 + hsegs + 1, i0 + hsegs + 2]))"

text \<open>
  \<open>createSphere\<close>. The sizes are computed in \<open>int\<close>. Every other \<open>int\<close> the function
  computes lies between 0 and \<open>nverts_ * 8\<close> or \<open>ntris_ * 3\<close>, so the five tests are all
  the overflows there can be.
\<close>

definition createSphere :: "GLfloat \<Rightarrow> int \<Rightarrow> TriangleSoup \<Rightarrow> TriangleSoup res" where
  "createSphere radius segments soup0 =
     (let soup = clean soup0;
          vsegs = max segments 2;
          hsegs = vsegs * 2;
          nv = 1 + (vsegs - 1) * (hsegs + 1) + 1;
          nt = hsegs + (vsegs - 2) * hsegs * 2 + hsegs in
      if \<not> (int_ok hsegs \<and> int_ok nv \<and> int_ok nt \<and> int_ok (nv * 8) \<and> int_ok (nt * 3))
      then Inl SignedOverflow
      else
        let va0 = resize (nat (nv * 8)) (vertexarray soup);
            ia0 = resize (nat (nt * 3)) (indexarray soup);
            stride = 8 in
        bind_res (store va0 0 [0, 0, radius, 0, 0, 1, 0.5, 1]) (\<lambda>va1.
        bind_res (store va1 ((nv - 1) * stride) [0, 0, - radius, 0, 0, -1, 0.5, 0]) (\<lambda>va2.
        bind_res (for_loop [0..vsegs - 2]
                    (\<lambda>j. for_loop [0..hsegs] (sphere_vertex radius vsegs hsegs j)) va2) (\<lambda>va3.
        bind_res (for_loop [0..hsegs - 1]
                    (\<lambda>i ia. store ia (3 * i) (map word_of_int [0, 1 + i, 2 + i])) ia0) (\<lambda>ia1.
        bind_res (for_loop [0..vsegs - 3]
                    (\<lambda>j. for_loop [0..hsegs - 1] (sphere_middle hsegs j)) ia1) (\<lambda>ia2.
        bind_res (let base = 3 * (hsegs + 2 * (vsegs - 2) * hsegs) in
                  for_loop [0..hsegs - 1]
                    (\<lambda>i ia. store ia (base + 3 * i) (map word_of_int [nv - 1, nv - 2 - i, nv - 3 - i])) ia2) (\<lambda>ia3.
        Inr (soup\<lparr>nverts := nv, ntris := nt, vertexarray := va3, indexarray := ia3\<rparr>))))))))"

subsection \<open>The C library functions of readOBJ\<close>

text \<open>
  \<open>fgets(line, n + 1, file)\<close> reads at most \<open>n\<close> characters and stops after a newline:
  the line read and the rest of the file. At the end of the file it returns \<open>NULL\<close>,
  which ends the loops of \<open>readOBJ\<close>.
\<close>

fun fgets :: "nat \<Rightarrow> string \<Rightarrow> string \<times> string" where
  "fgets 0 s = ([], s)"
| "fgets (Suc n) [] = ([], [])"
| "fgets (Suc n) (c # s) =
     (if c = CHR 0x0A then ([c], s) else (case fgets n s of (l, r) \<Rightarrow> (c # l, r)))"

text \<open>The lines that \<open>while (fgets(line, 256, objfile))\<close> goes through.\<close>

function file_lines :: "string \<Rightarrow> string list" where
  "file_lines s = (if s = [] then [] else fst (fgets 255 s) # file_lines (snd (fgets 255 s)))"
  by pat_completeness auto
termination
proof (relation "measure length")
  show "wf (measure length)" by simp
next
  fix s :: string
  assume s: "s \<noteq> []"
  have le: "length (snd (fgets n u)) \<le> length u" for n u
    by (induction n u rule: fgets.induct) (auto split: prod.splits)
  have lt: "length (snd (fgets n u)) < length u" if "u \<noteq> []" "0 < n" for n u
  proof (cases n)
    case 0
    then show ?thesis using that by simp
  next
    case (Suc m)
    from that obtain c t where u: "u = c # t" by (cases u) auto
    show ?thesis using le[of m t] by (auto simp: Suc u split: prod.splits)
  qed
  show "(snd (fgets 255 s), s) \<in> measure length"
    using lt[OF s, of 255] by simp
qed

declare file_lines.simps [simp del]

text \<open>A character buffer read as a C string ends at its first NUL.\<close>

definition c_str :: "string \<Rightarrow> string" where
  "c_str s = takeWhile (\<lambda>c. c \<noteq> CHR 0x00) s"

definition isspace :: "char \<Rightarrow> bool" where
  "isspace c = (c \<in> set [CHR '' '', CHR 0x09, CHR 0x0A, CHR 0x0B, CHR 0x0C, CHR 0x0D])"

definition isdigit :: "char \<Rightarrow> bool" where
  "isdigit c = (c \<in> set ''0123456789'')"

definition decimal :: "string \<Rightarrow> int" where
  "decimal ds = foldl (\<lambda>a c. 10 * a + (int (of_char c) - 48)) 0 ds"

text \<open>An optional sign in front of a number: whether it is a minus, and the rest.\<close>

definition scan_sign :: "string \<Rightarrow> bool \<times> string" where
  "scan_sign s =
     (case s of
        [] \<Rightarrow> (False, s)
      | c # r \<Rightarrow> if c = CHR ''-'' then (True, r) else if c = CHR ''+'' then (False, r) else (False, s))"

text \<open>
  The conversion \<open>%d\<close>, after the white space in front of it: the number and the rest of
  the input, or no match. The number is not cut to the range of \<open>int\<close>; where the
  sources use it, see \<open>face_data\<close>.
\<close>

definition scan_int :: "string \<Rightarrow> (int \<times> string) option" where
  "scan_int s =
     (case scan_sign s of (neg, t) \<Rightarrow>
        let ds = takeWhile isdigit t in
        if ds = [] then None
        else Some (if neg then - decimal ds else decimal ds, dropWhile isdigit t))"

text \<open>
  The conversion \<open>%f\<close> is a parameter of the model, of this type: from the input after
  the white space, the float and the rest of the input, or no match.
\<close>

type_synonym float_scanner = "string \<Rightarrow> (GLfloat \<times> string) option"

text \<open>
  A scanner for the examples: decimal notation with an optional sign and an optional
  fraction, without exponent. On such input the C library reads the same number.
\<close>

definition strtof_dec :: float_scanner where
  "strtof_dec s =
     (case scan_sign s of (neg, t) \<Rightarrow>
        let ip = takeWhile isdigit t;
            t1 = dropWhile isdigit t;
            fp = (case t1 of [] \<Rightarrow> [] | c # r \<Rightarrow> if c = CHR ''.'' then takeWhile isdigit r else []);
            t2 = (case t1 of [] \<Rightarrow> [] | c # r \<Rightarrow> if c = CHR ''.'' then dropWhile isdigit r else t1) in
        if ip = [] \<and> fp = [] then None
        else Some ((if neg then - 1 else 1) *
                     (real_of_int (decimal ip) + real_of_int (decimal fp) / 10 ^ length fp), t2))"

text \<open>
  \<open>sscanf\<close> for the directives that the format strings of \<open>readOBJ\<close> use: a character
  that the input has to show, white space (any amount of it, also none), \<open>%d\<close>, \<open>%f\<close>
  and \<open>%Ns\<close>. The result is the list of the values converted before the first directive
  that fails; its length is the value \<open>sscanf\<close> returns. (\<open>sscanf\<close> returns \<open>EOF\<close> when
  the input ends before the first conversion; \<open>readOBJ\<close> compares the value with the
  full count only, so \<open>EOF\<close> and 0 need not be told apart.)
\<close>

datatype directive = Lit char | Space | Conv_d | Conv_f | Conv_s nat

datatype scanned = Int_arg int | Float_arg GLfloat | Str_arg string

fun sscanf :: "float_scanner \<Rightarrow> directive list \<Rightarrow> string \<Rightarrow> scanned list" where
  "sscanf sf [] s = []"
| "sscanf sf (Lit c # fmt) s =
     (case s of [] \<Rightarrow> [] | x # r \<Rightarrow> if x = c then sscanf sf fmt r else [])"
| "sscanf sf (Space # fmt) s = sscanf sf fmt (dropWhile isspace s)"
| "sscanf sf (Conv_d # fmt) s =
     (case scan_int (dropWhile isspace s) of
        None \<Rightarrow> []
      | Some (v, r) \<Rightarrow> Int_arg v # sscanf sf fmt r)"
| "sscanf sf (Conv_f # fmt) s =
     (case sf (dropWhile isspace s) of
        None \<Rightarrow> []
      | Some (v, r) \<Rightarrow> Float_arg v # sscanf sf fmt r)"
| "sscanf sf (Conv_s n # fmt) s =
     (let t = dropWhile isspace s;
          w = take n (takeWhile (\<lambda>c. \<not> isspace c) t) in
      if w = [] then [] else Str_arg w # sscanf sf fmt (drop (length w) t))"

fun int_arg :: "scanned \<Rightarrow> int" where
  "int_arg (Int_arg v) = v"
| "int_arg _ = 0"

fun float_args :: "scanned list \<Rightarrow> GLfloat list" where
  "float_args [] = []"
| "float_args (Float_arg x # as) = x # float_args as"
| "float_args (_ # as) = float_args as"

text \<open>The format strings \<open>"%2s "\<close>, \<open>"v %f %f %f"\<close>, \<open>"vn %f %f %f"\<close>, \<open>"vt %f %f"\<close> and
  \<open>"f %d/%d/%d %d/%d/%d %d/%d/%d"\<close>.\<close>

definition fmt_tag :: "directive list" where
  "fmt_tag = [Conv_s 2, Space]"

definition fmt_v :: "directive list" where
  "fmt_v = [Lit (CHR ''v''), Space, Conv_f, Space, Conv_f, Space, Conv_f]"

definition fmt_vn :: "directive list" where
  "fmt_vn = [Lit (CHR ''v''), Lit (CHR ''n''), Space, Conv_f, Space, Conv_f, Space, Conv_f]"

definition fmt_vt :: "directive list" where
  "fmt_vt = [Lit (CHR ''v''), Lit (CHR ''t''), Space, Conv_f, Space, Conv_f]"

definition fmt_f :: "directive list" where
  "fmt_f =
     [Lit (CHR ''f''), Space, Conv_d, Lit (CHR ''/''), Conv_d, Lit (CHR ''/''), Conv_d,
      Space, Conv_d, Lit (CHR ''/''), Conv_d, Lit (CHR ''/''), Conv_d,
      Space, Conv_d, Lit (CHR ''/''), Conv_d, Lit (CHR ''/''), Conv_d]"

text \<open>
  \<open>sscanf(line, "%2s ", tag)\<close>: the buffer \<open>tag\<close> is written when the line has a word, and
  keeps its contents when it has none.
\<close>

definition scan_tag :: "float_scanner \<Rightarrow> string \<Rightarrow> string \<Rightarrow> string" where
  "scan_tag sf tag line = (case sscanf sf fmt_tag line of Str_arg w # _ \<Rightarrow> w | _ \<Rightarrow> tag)"

subsection \<open>readOBJ\<close>

text \<open>What \<open>readOBJ\<close> writes to \<open>std::cerr\<close>.\<close>

datatype log_msg =
    File_not_found string
  | Malformed_vertex int
  | Malformed_normal int
  | Malformed_texcoord int
  | Malformed_face int
  | Mesh_read_error

record counts =
  numverts :: int
  numnormals :: int
  numtexcoords :: int
  numfaces :: int

text \<open>
  The first loop counts the lines by tag. The buffer \<open>tag\<close> is not reset between
  lines here, so that a line without a word is counted under the tag of the line before
  it.
\<close>

fun count_pass :: "float_scanner \<Rightarrow> string list \<Rightarrow> string \<Rightarrow> counts \<Rightarrow> counts" where
  "count_pass sf [] tag c = c"
| "count_pass sf (line # rest) tag c =
     (let tag' = scan_tag sf tag (c_str line) in
      count_pass sf rest tag'
        (if tag' = ''v'' then c\<lparr>numverts := numverts c + 1\<rparr>
         else if tag' = ''vn'' then c\<lparr>numnormals := numnormals c + 1\<rparr>
         else if tag' = ''vt'' then c\<lparr>numtexcoords := numtexcoords c + 1\<rparr>
         else if tag' = ''f'' then c\<lparr>numfaces := numfaces c + 1\<rparr>
         else c))"

text \<open>The variables of the second loop, with the two arrays of the object it fills.\<close>

record parse_state =
  i_v :: int
  i_n :: int
  i_t :: int
  i_f :: int
  verts :: "GLfloat list"
  normals :: "GLfloat list"
  texcoords :: "GLfloat list"
  st_vertexarray :: "GLfloat list"
  st_indexarray :: "GLuint list"
  readerror :: bool
  cerr :: "log_msg list"

text \<open>
  \<open>sscanf(line, fmt, &arr[base], ..., &arr[base + n - 1])\<close> with \<open>%f\<close> conversions only:
  the \<open>n\<close> elements have to be there, the floats converted are stored in them, and
  the number of conversions is returned with the array.
\<close>

definition scan_floats ::
  "float_scanner \<Rightarrow> directive list \<Rightarrow> string \<Rightarrow> GLfloat list \<Rightarrow> int \<Rightarrow> nat \<Rightarrow> (int \<times> GLfloat list) res" where
  "scan_floats sf fmt line arr base n =
     (let args = sscanf sf fmt line in
      bind_res (load arr base n) (\<lambda>_.
      bind_res (store arr base (float_args args)) (\<lambda>arr'.
      Inr (int (length args), arr'))))"

fun concat_res :: "'a list res list \<Rightarrow> 'a list res" where
  "concat_res [] = Inr []"
| "concat_res (r # rs) = bind_res r (\<lambda>x. bind_res (concat_res rs) (\<lambda>y. Inr (x @ y)))"

text \<open>
  The 24 floats of a face, read from the temporary arrays at the nine indices (already
  decremented). An index that does not fit an \<open>int\<close>, or whose multiple does not, is
  outside the arrays as well, and is the same fault here.
\<close>

definition face_data ::
  "GLfloat list \<Rightarrow> GLfloat list \<Rightarrow> GLfloat list \<Rightarrow>
   int \<Rightarrow> int \<Rightarrow> int \<Rightarrow> int \<Rightarrow> int \<Rightarrow> int \<Rightarrow> int \<Rightarrow> int \<Rightarrow> int \<Rightarrow> GLfloat list res" where
  "face_data vs ns ts v1 t1 n1 v2 t2 n2 v3 t3 n3 =
     concat_res
       [load vs (3 * v1) 3, load ns (3 * n1) 3, load ts (2 * t1) 2,
        load vs (3 * v2) 3, load ns (3 * n2) 3, load ts (2 * t2) 2,
        load vs (3 * v3) 3, load ns (3 * n3) 3, load ts (2 * t3) 2]"

text \<open>
  The body of the second loop for one line. The loop is left (\<open>break\<close>) exactly when
  the body has set \<open>readerror\<close>.
\<close>

definition parse_line :: "float_scanner \<Rightarrow> string \<Rightarrow> parse_state \<Rightarrow> parse_state res" where
  "parse_line sf line st =
     (let tag = scan_tag sf [] line in
      if tag = ''v'' then
        bind_res (scan_floats sf fmt_v line (verts st) (3 * i_v st) 3) (\<lambda>(numargs, arr).
        if numargs \<noteq> 3
        then Inr (st\<lparr>verts := arr, cerr := cerr st @ [Malformed_vertex (i_v st + 1)], readerror := True\<rparr>)
        else Inr (st\<lparr>verts := arr, i_v := i_v st + 1\<rparr>))
      else if tag = ''vn'' then
        bind_res (scan_floats sf fmt_vn line (normals st) (3 * i_n st) 3) (\<lambda>(numargs, arr).
        if numargs \<noteq> 3
        then Inr (st\<lparr>normals := arr, cerr := cerr st @ [Malformed_normal (i_n st + 1)], readerror := True\<rparr>)
        else Inr (st\<lparr>normals := arr, i_n := i_n st + 1\<rparr>))
      else if tag = ''vt'' then
        bind_res (scan_floats sf fmt_vt line (texcoords st) (2 * i_t st) 2) (\<lambda>(numargs, arr).
        if numargs \<noteq> 2
        then Inr (st\<lparr>texcoords := arr, cerr := cerr st @ [Malformed_texcoord (i_t st + 1)], readerror := True\<rparr>)
        else Inr (st\<lparr>texcoords := arr, i_t := i_t st + 1\<rparr>))
      else if tag = ''f'' then
        (let args = sscanf sf fmt_f line; numargs = int (length args) in
         if numargs \<noteq> 9
         then Inr (st\<lparr>cerr := cerr st @ [Malformed_face (i_f st + 1)], readerror := True\<rparr>)
         else
           let v1 = int_arg (args ! 0) - 1; t1 = int_arg (args ! 1) - 1; n1 = int_arg (args ! 2) - 1;
               v2 = int_arg (args ! 3) - 1; t2 = int_arg (args ! 4) - 1; n2 = int_arg (args ! 5) - 1;
               v3 = int_arg (args ! 6) - 1; t3 = int_arg (args ! 7) - 1; n3 = int_arg (args ! 8) - 1;
               currentv = 8 * 3 * i_f st in
           bind_res (face_data (verts st) (normals st) (texcoords st) v1 t1 n1 v2 t2 n2 v3 t3 n3) (\<lambda>fd.
           bind_res (store (st_vertexarray st) currentv fd) (\<lambda>va'.
           bind_res (store (st_indexarray st) (3 * i_f st)
                       (map word_of_int [3 * i_f st, 3 * i_f st + 1, 3 * i_f st + 2])) (\<lambda>ia'.
           Inr (st\<lparr>st_vertexarray := va', st_indexarray := ia', i_f := i_f st + 1\<rparr>)))))
      else Inr st)"

fun parse_pass :: "float_scanner \<Rightarrow> string list \<Rightarrow> parse_state \<Rightarrow> parse_state res" where
  "parse_pass sf [] st = Inr st"
| "parse_pass sf (line # rest) st =
     bind_res (parse_line sf (c_str line) st) (\<lambda>st'.
     if readerror st' then Inr st' else parse_pass sf rest st')"

text \<open>
  \<open>readOBJ\<close>, with the file system, the \<open>%f\<close> scanner and the contents \<open>tag0\<close> that the
  uninitialised buffer \<open>tag\<close> has at the start. The result is what was written to
  \<open>std::cerr\<close> and the object. The counts of the first loop are \<open>int\<close>s, and so are the
  sizes computed from them; all other \<open>int\<close>s of the function lie between 0 and those.
\<close>

definition readOBJ ::
  "char filesystem \<Rightarrow> float_scanner \<Rightarrow> string \<Rightarrow> string \<Rightarrow> TriangleSoup \<Rightarrow> (log_msg list \<times> TriangleSoup) res" where
  "readOBJ fs sf tag0 filename soup =
     (case fs filename of
        None \<Rightarrow> Inr ([File_not_found filename], soup)
      | Some content \<Rightarrow>
          let lines = file_lines content;
              c = count_pass sf lines tag0
                    \<lparr>numverts = 0, numnormals = 0, numtexcoords = 0, numfaces = 0\<rparr> in
          if \<not> (int_ok (3 * numverts c) \<and> int_ok (3 * numnormals c) \<and>
                 int_ok (2 * numtexcoords c) \<and> int_ok (8 * 3 * numfaces c))
          then Inl SignedOverflow
          else
            let soup1 = soup\<lparr>vertexarray := resize (nat (8 * 3 * numfaces c)) (vertexarray soup),
                             indexarray := resize (nat (3 * numfaces c)) (indexarray soup),
                             nverts := 3 * numfaces c,
                             ntris := numfaces c\<rparr>;
                st0 = \<lparr>i_v = 0, i_n = 0, i_t = 0, i_f = 0,
                       verts = replicate (nat (3 * numverts c)) 0,
                       normals = replicate (nat (3 * numnormals c)) 0,
                       texcoords = replicate (nat (2 * numtexcoords c)) 0,
                       st_vertexarray = vertexarray soup1, st_indexarray = indexarray soup1,
                       readerror = False, cerr = []\<rparr> in
            bind_res (parse_pass sf lines st0) (\<lambda>st.
            if readerror st
            then Inr (cerr st @ [Mesh_read_error],
                      clean (soup1\<lparr>vertexarray := st_vertexarray st, indexarray := st_indexarray st\<rparr>))
            else Inr (cerr st, soup1\<lparr>vertexarray := st_vertexarray st, indexarray := st_indexarray st\<rparr>)))"

subsection \<open>Predicates of the statements\<close>

text \<open>
  The index array has \<open>n\<close> entries, and every entry is the index of a vertex of a mesh
  with \<open>nv\<close> vertices.
\<close>

definition ia_inv :: "int \<Rightarrow> int \<Rightarrow> GLuint list \<Rightarrow> bool" where
  "ia_inv n nv xs = (int (length xs) = n \<and> list_all (\<lambda>x. uint x < nv) xs)"

text \<open>The sizes of the two arrays agree with the two counts.\<close>

definition mesh_inv :: "TriangleSoup \<Rightarrow> bool" where
  "mesh_inv soup =
     (int (length (indexarray soup)) = 3 * ntris soup \<and>
      int (length (vertexarray soup)) = 8 * nverts soup)"

text \<open>
  A line of the second loop from which \<open>sscanf\<close> converts fewer values than the tag
  asks for: three for \<open>v\<close> and \<open>vn\<close>, two for \<open>vt\<close>, nine for \<open>f\<close>.
\<close>

definition malformed :: "float_scanner \<Rightarrow> string \<Rightarrow> bool" where
  "malformed sf line =
     (let tag = scan_tag sf [] line in
      (tag = ''v'' \<and> length (sscanf sf fmt_v line) < 3) \<or>
      (tag = ''vn'' \<and> length (sscanf sf fmt_vn line) < 3) \<or>
      (tag = ''vt'' \<and> length (sscanf sf fmt_vt line) < 2) \<or>
      (tag = ''f'' \<and> length (sscanf sf fmt_f line) < 9))"

definition recognized :: "string \<Rightarrow> bool" where
  "recognized tag = (tag = ''v'' \<or> tag = ''vn'' \<or> tag = ''vt'' \<or> tag = ''f'')"



text \<open>
  The nine indices of a face line, as written in the file, lie within the counts of the
  first loop: \<open>v\<close> indices from 1 to \<open>numverts\<close>, \<open>vt\<close> indices from 1 to
  \<open>numtexcoords\<close>, \<open>vn\<close> indices from 1 to \<open>numnormals\<close>. A line that is not a face line
  with nine indices passes.
\<close>

definition index_in_range :: "int \<Rightarrow> scanned \<Rightarrow> bool" where
  "index_in_range n a = (1 \<le> int_arg a \<and> int_arg a \<le> n)"

definition face_in_range :: "float_scanner \<Rightarrow> counts \<Rightarrow> string \<Rightarrow> bool" where
  "face_in_range sf c line =
     (let args = sscanf sf fmt_f line in
      if scan_tag sf [] line = ''f'' \<and> length args = 9 then
        index_in_range (numverts c) (args ! 0) \<and> index_in_range (numtexcoords c) (args ! 1) \<and>
        index_in_range (numnormals c) (args ! 2) \<and>
        index_in_range (numverts c) (args ! 3) \<and> index_in_range (numtexcoords c) (args ! 4) \<and>
        index_in_range (numnormals c) (args ! 5) \<and>
        index_in_range (numverts c) (args ! 6) \<and> index_in_range (numtexcoords c) (args ! 7) \<and>
        index_in_range (numnormals c) (args ! 8)
      else True)"

text \<open>The counts of the first loop for a file, as \<open>readOBJ\<close> computes them.\<close>

definition first_pass :: "float_scanner \<Rightarrow> string \<Rightarrow> string \<Rightarrow> counts" where
  "first_pass sf tag0 content =
     count_pass sf (file_lines content) tag0
       \<lparr>numverts = 0, numnormals = 0, numtexcoords = 0, numfaces = 0\<rparr>"

text \<open>The number of lines that the second loop reads under a tag.\<close>

definition tag_count :: "float_scanner \<Rightarrow> string \<Rightarrow> string list \<Rightarrow> int" where
  "tag_count sf tag ls = int (length (filter (\<lambda>l. scan_tag sf [] (c_str l) = tag) ls))"

text \<open>The number of conversions of a format.\<close>

fun conversions :: "directive list \<Rightarrow> nat" where
  "conversions [] = 0"
| "conversions (Lit c # fmt) = conversions fmt"
| "conversions (Space # fmt) = conversions fmt"
| "conversions (_ # fmt) = Suc (conversions fmt)"

text \<open>
  The invariant of the second loop before the lines \<open>rest\<close>: the arrays have the sizes
  given by the counts of the first loop, and each counter leaves room for the lines of
  its tag that are still to come.
\<close>

definition pass_inv :: "float_scanner \<Rightarrow> counts \<Rightarrow> string list \<Rightarrow> parse_state \<Rightarrow> bool" where
  "pass_inv sf c rest st =
     (int (length (verts st)) = 3 * numverts c \<and>
      int (length (normals st)) = 3 * numnormals c \<and>
      int (length (texcoords st)) = 2 * numtexcoords c \<and>
      int (length (st_vertexarray st)) = 8 * 3 * numfaces c \<and>
      int (length (st_indexarray st)) = 3 * numfaces c \<and>
      0 \<le> i_v st \<and> i_v st + tag_count sf ''v'' rest \<le> numverts c \<and>
      0 \<le> i_n st \<and> i_n st + tag_count sf ''vn'' rest \<le> numnormals c \<and>
      0 \<le> i_t st \<and> i_t st + tag_count sf ''vt'' rest \<le> numtexcoords c \<and>
      0 \<le> i_f st \<and> i_f st + tag_count sf ''f'' rest \<le> numfaces c)"

subsection \<open>Example files\<close>

text \<open>Four vertices, one texture coordinate, one normal, and a face line with four
  index triples.\<close>

definition quad_obj :: string where
  "quad_obj =
     ''v 0 0 0\<newline>v 1 0 0\<newline>v 1 1 0\<newline>v 0 1 0\<newline>vt 0 0\<newline>vn 0 0 1\<newline>f 1/1/1 2/1/1 3/1/1 4/1/1\<newline>''"







text \<open>A face line in a file without any \<open>v\<close>, \<open>vt\<close> or \<open>vn\<close> line.\<close>

definition dangling_face_obj :: string where
  "dangling_face_obj = ''f 1/1/1 1/1/1 1/1/1\<newline>''"

text \<open>Four \<open>v\<close>, four \<open>vn\<close> and four \<open>vt\<close> lines and two triangles.\<close>

definition two_triangles_obj :: string where
  "two_triangles_obj =
     ''v 0 0 0\<newline>v 1 0 0\<newline>v 1 1 0\<newline>v 0 1 0\<newline>vn 0 0 1\<newline>vn 0 0 1\<newline>vn 0 0 1\<newline>vn 0 0 1\<newline>vt 0 0\<newline>vt 1 0\<newline>vt 1 1\<newline>vt 0 1\<newline>f 1/1/1 2/2/2 3/3/3\<newline>f 1/1/1 3/3/3 4/4/4\<newline>''"

text \<open>The object after \<open>createTriangle\<close>.\<close>

definition triangle_soup :: TriangleSoup where
  "triangle_soup =
     \<lparr>nverts = 3, ntris = 1,
      vertexarray = triangle_vertex_array_data, indexarray = triangle_index_array_data\<rparr>"

section \<open>Properties of the TGA decoder\<close>

lemma length_swap_at [simp]: "length (swap_at xs i j) = length xs"
  by (simp add: swap_at_def)

lemma unat_dim16: "unat (dim16 hi lo) = unat hi * 256 + unat lo"
proof -
  have "unat hi < 256" "unat lo < 256"
    using unsigned_less[of hi] unsigned_less[of lo] by simp_all
  then have "unat hi * 256 + unat lo < 2 ^ LENGTH(32)" by simp
  then show ?thesis unfolding dim16_def by (rule of_nat_inverse[OF refl])
qed

lemma swap_loop_4:
  "4 dvd n \<Longrightarrow> 4 dvd c \<Longrightarrow> length d = n \<Longrightarrow> \<exists>d'. swap_loop 4 n c d = Inr d' \<and> length d' = n"
proof (induction "4::nat" n c d rule: swap_loop.induct)
  case (1 imageSize cswap d)
  show ?case
  proof (cases "cswap < imageSize")
    case False
    then show ?thesis using 1 by (simp add: swap_loop.simps)
  next
    case True
    from True 1(2,3) have "cswap + 4 \<le> imageSize" by (auto elim!: dvdE)
    then have lt: "cswap + 2 < length d" using 1(4) by simp
    have "\<exists>d'. swap_loop 4 imageSize (cswap + 4) (swap_at d cswap (cswap + 2)) = Inr d' \<and> length d' = imageSize"
      using 1(1)[OF _ lt] True 1(2,3,4) by simp
    then show ?thesis using True lt by (subst swap_loop.simps) simp
  qed
qed

lemma loadUncompressedTGA_rgba:
  assumes "W = unat wh * 256 + unat wl" "H = unat hh * 256 + unat hl"
      "0 < W" "0 < H" "(4 * W * H) mod 2 ^ 32 \<le> length pixels"
  shows "\<exists>img. loadUncompressedTGA (fs(filename \<mapsto> uncompressedTGA @ [wl, wh, hl, hh, 32, x] @ pixels)) filename = Inr img
     \<and> unat (width img) = W \<and> unat (height img) = H \<and> type img = GL_RGBA
     \<and> length (data img) = (4 * W * H) mod 2 ^ 32"
proof -
  have wb: "unat wl < 256" "unat wh < 256" "unat hl < 256" "unat hh < 256"
    using unsigned_less[of wl] unsigned_less[of wh] unsigned_less[of hl] unsigned_less[of hh] by simp_all
  define w :: GLuint where "w = dim16 wh wl"
  define h :: GLuint where "h = dim16 hh hl"
  have uw: "unat w = W" and uh: "unat h = H"
    unfolding w_def h_def assms(1,2) by (rule unat_dim16)+
  have wnz: "w \<noteq> 0" "h \<noteq> 0" using uw uh assms(3,4) by auto
  have sz: "unat (4 * w * h) = (4 * W * H) mod 2 ^ 32"
    by (simp add: unat_word_ariths uw uh mod_mult_right_eq mod_mult_left_eq)
  have d4: "4 dvd (4 * W * H) mod 2 ^ 32"
    by (simp add: dvd_mod_iff mult.assoc)
  obtain d' where d': "swap_loop 4 (unat (4 * w * h)) 0 (take (unat (4 * w * h)) pixels) = Inr d'"
     "length d' = unat (4 * w * h)"
    using swap_loop_4[of "unat (4 * w * h)" 0 "take (unat (4 * w * h)) pixels"] d4 sz assms(5) by auto
  have "loadUncompressedTGA (fs(filename \<mapsto> uncompressedTGA @ [wl, wh, hl, hh, 32, x] @ pixels)) filename
      = Inr \<lparr>width = w, height = h, type = GL_RGBA, data = d'\<rparr>"
    using wnz d' assms(5) sz
    by (simp add: loadUncompressedTGA_def compressedTGA_def uncompressedTGA_def Let_def
         w_def[symmetric] h_def[symmetric])
  then show ?thesis using uw uh d'(2) sz by simp
qed

text \<open>
  C3. A file with the uncompressed signature, width 2, height 1 and 24 bits per pixel,
  followed by six bytes of pixel data, is decoded: the result has the three-byte pixel
  type \<open>GL_RGB\<close> (three channels) and the six bytes with the first and the third byte
  of each pixel exchanged. The same header followed by three bytes only gives the empty
  image.
\<close>

theorem loadUncompressedTGA_rgb_2x1:
  "loadUncompressedTGA
     (fs(filename \<mapsto> uncompressedTGA @ [2, 0, 1, 0, 24, d] @ [b0, b1, b2, b3, b4, b5])) filename
     = Inr \<lparr>width = 2, height = 1, type = GL_RGB, data = [b2, b1, b0, b5, b4, b3]\<rparr>
   \<and> loadUncompressedTGA
     (fs(filename \<mapsto> uncompressedTGA @ [2, 0, 1, 0, 24, d] @ [b0, b1, b2])) filename
     = Inr empty_image"
proof
  have sw: "swap_loop 3 6 0 [b0, b1, b2, b3, b4, b5] = Inr [b2, b1, b0, b5, b4, b3]"
    by (simp add: swap_loop.simps swap_at_def)
  show "loadUncompressedTGA
     (fs(filename \<mapsto> uncompressedTGA @ [2, 0, 1, 0, 24, d] @ [b0, b1, b2, b3, b4, b5])) filename
     = Inr \<lparr>width = 2, height = 1, type = GL_RGB, data = [b2, b1, b0, b5, b4, b3]\<rparr>"
    by (simp add: loadUncompressedTGA_def compressedTGA_def uncompressedTGA_def dim16_def Let_def sw)
  show "loadUncompressedTGA
     (fs(filename \<mapsto> uncompressedTGA @ [2, 0, 1, 0, 24, d] @ [b0, b1, b2])) filename
     = Inr empty_image"
    by (simp add: loadUncompressedTGA_def compressedTGA_def uncompressedTGA_def dim16_def Let_def)
qed

theorem loadUncompressedTGA_rgb_2x1_witness:
  "loadUncompressedTGA
     [''image.tga'' \<mapsto> uncompressedTGA @ [2, 0, 1, 0, 24, 0] @ [10, 20, 30, 40, 50, 60]] ''image.tga''
     = Inr \<lparr>width = 2, height = 1, type = GL_RGB, data = [30, 20, 10, 60, 50, 40]\<rparr>
   \<and> loadUncompressedTGA
     [''image.tga'' \<mapsto> uncompressedTGA @ [2, 0, 1, 0, 24, 0] @ [10, 20, 30]] ''image.tga''
     = Inr empty_image"
  using loadUncompressedTGA_rgb_2x1 [of Map.empty "''image.tga''" 0 10 20 30 40 50 60]
  by simp

text \<open>
  C7. A file whose first twelve bytes are the signature of a run-length compressed TGA
  gives the empty image, whatever follows the signature.
\<close>

theorem loadUncompressedTGA_compressed_fails:
  "loadUncompressedTGA (fs(filename \<mapsto> compressedTGA @ rest)) filename = Inr empty_image"
  by (simp add: loadUncompressedTGA_def compressedTGA_def)

theorem loadUncompressedTGA_compressed_fails_witness:
  "loadUncompressedTGA
     [''image.tga'' \<mapsto> compressedTGA @ [2, 0, 1, 0, 24, 0, 10, 20, 30, 40, 50, 60]] ''image.tga''
     = Inr empty_image"
  using loadUncompressedTGA_compressed_fails
          [of Map.empty "''image.tga''" "[2, 0, 1, 0, 24, 0, 10, 20, 30, 40, 50, 60]"]
  by simp

text \<open>
  C10. The size of the pixel data is computed in unsigned 32-bit arithmetic. With 32
  bits per pixel, every header with non-zero dimensions, followed by enough bytes, is
  decoded to a buffer whose length is \<open>4 * width * height\<close> modulo \<open>2 ^ 32\<close>; and there
  is a file with dimensions up to 65535 for which that length is not the product itself.
\<close>

theorem loadUncompressedTGA_size_wraps:
  "(\<forall>fs filename wl wh hl hh x pixels.
      0 < unat wh * 256 + unat wl \<and> 0 < unat hh * 256 + unat hl \<and>
      (4 * (unat wh * 256 + unat wl) * (unat hh * 256 + unat hl)) mod 2 ^ 32 \<le> length pixels \<longrightarrow>
      (\<exists>img. loadUncompressedTGA
               (fs(filename \<mapsto> uncompressedTGA @ [wl, wh, hl, hh, 32, x] @ pixels)) filename = Inr img \<and>
             unat (width img) = unat wh * 256 + unat wl \<and>
             unat (height img) = unat hh * 256 + unat hl \<and>
             type img = GL_RGBA \<and>
             length (data img) =
               (4 * (unat wh * 256 + unat wl) * (unat hh * 256 + unat hl)) mod 2 ^ 32))
   \<and> (\<exists>filename bytes img.
         loadUncompressedTGA [filename \<mapsto> bytes] filename = Inr img \<and>
         unat (width img) \<le> 65535 \<and> unat (height img) \<le> 65535 \<and> type img = GL_RGBA \<and>
         length (data img) = (4 * unat (width img) * unat (height img)) mod 2 ^ 32 \<and>
         length (data img) \<noteq> 4 * unat (width img) * unat (height img))"
proof (intro conjI allI impI)
  fix fs :: "GLubyte filesystem" and filename :: string
    and wl wh hl hh x :: GLubyte and pixels :: "GLubyte list"
  assume "0 < unat wh * 256 + unat wl \<and> 0 < unat hh * 256 + unat hl \<and>
      (4 * (unat wh * 256 + unat wl) * (unat hh * 256 + unat hl)) mod 2 ^ 32 \<le> length pixels"
  then have "0 < unat wh * 256 + unat wl" "0 < unat hh * 256 + unat hl"
      "(4 * (unat wh * 256 + unat wl) * (unat hh * 256 + unat hl)) mod 2 ^ 32 \<le> length pixels"
    by simp_all
  then show "\<exists>img. loadUncompressedTGA
               (fs(filename \<mapsto> uncompressedTGA @ [wl, wh, hl, hh, 32, x] @ pixels)) filename = Inr img \<and>
             unat (width img) = unat wh * 256 + unat wl \<and>
             unat (height img) = unat hh * 256 + unat hl \<and>
             type img = GL_RGBA \<and>
             length (data img) =
               (4 * (unat wh * 256 + unat wl) * (unat hh * 256 + unat hl)) mod 2 ^ 32"
    by (rule loadUncompressedTGA_rgba[OF refl refl])
next
  have "\<exists>img. loadUncompressedTGA
     (Map.empty(''big.tga'' \<mapsto> uncompressedTGA @ [1, 128, 0, 128, 32, 0] @ replicate 131072 0)) ''big.tga'' = Inr img
     \<and> unat (width img) = 32769 \<and> unat (height img) = 32768 \<and> type img = GL_RGBA
     \<and> length (data img) = (4 * 32769 * 32768) mod 2 ^ 32"
    by (rule loadUncompressedTGA_rgba) simp_all
  then obtain img where img: "loadUncompressedTGA
     [''big.tga'' \<mapsto> uncompressedTGA @ [1, 128, 0, 128, 32, 0] @ replicate 131072 0] ''big.tga'' = Inr img"
     "unat (width img) = 32769" "unat (height img) = 32768" "type img = GL_RGBA"
     "length (data img) = (4 * 32769 * 32768) mod 2 ^ 32"
    by blast
  show "\<exists>filename bytes img.
         loadUncompressedTGA [filename \<mapsto> bytes] filename = Inr img \<and>
         unat (width img) \<le> 65535 \<and> unat (height img) \<le> 65535 \<and> type img = GL_RGBA \<and>
         length (data img) = (4 * unat (width img) * unat (height img)) mod 2 ^ 32 \<and>
         length (data img) \<noteq> 4 * unat (width img) * unat (height img)"
    apply (rule exI[of _ "''big.tga''"])
    apply (rule exI[of _ "uncompressedTGA @ [1, 128, 0, 128, 32, 0] @ replicate 131072 0"])
    apply (rule exI[of _ img])
    using img by simp
qed

theorem loadUncompressedTGA_size_wraps_witness:
  "\<exists>img. loadUncompressedTGA
       [''big.tga'' \<mapsto> uncompressedTGA @ [1, 128, 0, 128, 32, 0] @ replicate 131072 0] ''big.tga'' = Inr img \<and>
     unat (width img) = 32769 \<and> unat (height img) = 32768 \<and> type img = GL_RGBA \<and>
     length (data img) = 131072 \<and> (131072 :: nat) \<noteq> 4 * 32769 * 32768"
proof -
  have "0 < unat (128 :: GLubyte) * 256 + unat (1 :: GLubyte) \<and>
      0 < unat (128 :: GLubyte) * 256 + unat (0 :: GLubyte) \<and>
      (4 * (unat (128 :: GLubyte) * 256 + unat (1 :: GLubyte)) *
         (unat (128 :: GLubyte) * 256 + unat (0 :: GLubyte))) mod 2 ^ 32
        \<le> length (replicate 131072 (0 :: GLubyte))"
    by simp
  then show ?thesis
    using loadUncompressedTGA_size_wraps [THEN conjunct1, rule_format,
            of 128 1 128 0 "replicate 131072 0" Map.empty "''big.tga''" 0]
    by simp
qed

section \<open>Properties of the mesh generator\<close>

subsection \<open>Loops and vectors\<close>

lemma bind_res_Inr [simp]: "bind_res (Inr x) f = f x"
  by (simp add: bind_res_def)

lemma bind_res_Inl [simp]: "bind_res (Inl e) f = Inl e"
  by (simp add: bind_res_def)

lemma for_loop_append:
  "for_loop (xs @ ys) body s = bind_res (for_loop xs body s) (for_loop ys body)"
  by (induction xs arbitrary: s) (auto simp: bind_res_def split: sum.splits)

lemma upto_snoc: "0 \<le> k \<Longrightarrow> [0..k] = [0..k - 1] @ [k]"
  using upto_rec2[of 0 k] by simp

lemma copy_loop_prefix:
  "k \<le> length src \<Longrightarrow> length dst = length src \<Longrightarrow>
   for_loop [0..int k - 1] (\<lambda>i d. bind_res (get src i) (put d i)) dst = Inr (take k src @ drop k dst)"
proof (induction k)
  case 0
  then show ?case by simp
next
  case (Suc k)
  have eq: "[0..int (Suc k) - 1] = [0..int k - 1] @ [int k]"
    using upto_snoc[of "int k"] by simp
  have k: "k < length src" "k < length dst" using Suc.prems by simp_all
  have upd: "(take k src @ drop k dst)[k := src ! k] = take (Suc k) src @ drop (Suc k) dst"
    using k by (simp add: list_update_append take_Suc_conv_app_nth flip: Cons_nth_drop_Suc[OF k(2)])
  let ?body = "\<lambda>i d. bind_res (get src i) (put d i)"
  have ih: "for_loop [0..int k - 1] ?body dst = Inr (take k src @ drop k dst)"
    using Suc by simp
  have step: "?body (int k) (take k src @ drop k dst) = Inr (take (Suc k) src @ drop (Suc k) dst)"
    using k upd by (simp add: get_def put_def)
  have "for_loop [0..int (Suc k) - 1] ?body dst
      = bind_res (for_loop [0..int k - 1] ?body dst) (for_loop [int k] ?body)"
    unfolding eq by (rule for_loop_append)
  also have "\<dots> = Inr (take (Suc k) src @ drop (Suc k) dst)"
    unfolding ih by (simp add: step)
  finally show ?case .
qed

lemma copy_loop_exact:
  "0 \<le> n \<Longrightarrow> length src = nat n \<Longrightarrow> length dst = nat n \<Longrightarrow> copy_loop n src dst = Inr src"
  using copy_loop_prefix[of "nat n" src dst] by (simp add: copy_loop_def)

lemma length_resize [simp]: "length (resize n xs) = n"
  by (simp add: resize_def)

lemma for_loop_inv:
  assumes "I s" and "\<And>i s. i \<in> set is \<Longrightarrow> I s \<Longrightarrow> \<exists>s'. body i s = Inr s' \<and> I s'"
  shows "\<exists>s'. for_loop is body s = Inr s' \<and> I s'"
  using assms
proof (induction "is" arbitrary: s)
  case Nil
  then show ?case by simp
next
  case (Cons i "is")
  from Cons.prems obtain s1 where s1: "body i s = Inr s1" "I s1" by force
  from Cons.IH[OF s1(2)] Cons.prems(2) obtain s2 where "for_loop is body s1 = Inr s2" "I s2"
    by force
  then show ?case using s1 by simp
qed

lemma store_ok:
  assumes "0 \<le> base" "base + int (length vals) \<le> int (length xs)"
  shows "\<exists>xs'. store xs base vals = Inr xs' \<and> length xs' = length xs \<and> set xs' \<subseteq> set xs \<union> set vals"
proof -
  have "set (take (nat base) xs) \<subseteq> set xs" "set (drop (nat base + length vals) xs) \<subseteq> set xs"
    by (rule set_take_subset, rule set_drop_subset)
  then show ?thesis using assms by (auto simp: store_def)
qed

lemma store_length:
  assumes "0 \<le> base" "base + int (length vals) \<le> int (length xs)"
  shows "\<exists>xs'. store xs base vals = Inr xs' \<and> length xs' = length xs"
  using store_ok[OF assms] by blast

lemma uint_index: "0 \<le> k \<Longrightarrow> k < nv \<Longrightarrow> nv \<le> 2 ^ 31 \<Longrightarrow> uint (word_of_int k :: GLuint) = k"
  by (simp add: uint_word_of_int take_bit_eq_mod)

lemma store_ia_inv:
  assumes "ia_inv n nv ia" "0 \<le> base" "base + int (length ks) \<le> n" "nv \<le> 2 ^ 31"
    and "\<And>k. k \<in> set ks \<Longrightarrow> 0 \<le> k \<and> k < nv"
  shows "\<exists>ia'. store ia base (map word_of_int ks) = Inr ia' \<and> ia_inv n nv ia'"
proof -
  from assms(1,2,3) obtain ia' where ia': "store ia base (map word_of_int ks) = Inr ia'"
     "length ia' = length ia" "set ia' \<subseteq> set ia \<union> set (map word_of_int ks)"
    using store_ok[of base "map word_of_int ks" ia] by (auto simp: ia_inv_def list_all_iff)
  have "uint x < nv" if "x \<in> set ia'" for x
  proof -
    from that ia'(3) consider "x \<in> set ia" | k where "k \<in> set ks" "x = word_of_int k" by auto
    then show ?thesis
    proof cases
      case 1
      then show ?thesis using assms(1) by (simp add: ia_inv_def list_all_iff)
    next
      case 2
      then show ?thesis using assms(5)[of k] uint_index[of k nv] assms(4) by simp
    qed
  qed
  then show ?thesis using ia' assms(1) by (auto simp: ia_inv_def list_all_iff)
qed

subsection \<open>createTriangle and createBox\<close>

lemma createBox_eq:
  "createBox xsize ysize zsize soup =
     Inr (soup\<lparr>nverts := 8, ntris := 12,
               vertexarray := box_vertex_array_data xsize ysize zsize,
               indexarray := box_index_array_data\<rparr>)"
proof -
  have "copy_loop 64 (box_vertex_array_data xsize ysize zsize) (resize 64 (vertexarray soup))
          = Inr (box_vertex_array_data xsize ysize zsize)"
    by (rule copy_loop_exact) (simp_all add: box_vertex_array_data_def)
  moreover have "copy_loop 36 box_index_array_data (resize 36 (indexarray soup)) = Inr box_index_array_data"
    by (rule copy_loop_exact) (simp_all add: box_index_array_data_def)
  ultimately show ?thesis by (simp add: createBox_def)
qed

lemma createTriangle_eq:
  "createTriangle soup =
     Inr (soup\<lparr>nverts := 3, ntris := 1,
               vertexarray := triangle_vertex_array_data,
               indexarray := triangle_index_array_data\<rparr>)"
proof -
  have "copy_loop 24 triangle_vertex_array_data (resize 24 (vertexarray soup))
          = Inr triangle_vertex_array_data"
    by (rule copy_loop_exact) (simp_all add: triangle_vertex_array_data_def)
  moreover have "copy_loop 3 triangle_index_array_data (resize 3 (indexarray soup)) = Inr triangle_index_array_data"
    by (rule copy_loop_exact) (simp_all add: triangle_index_array_data_def)
  ultimately show ?thesis by (simp add: createTriangle_def)
qed

text \<open>
  C8. For all half-extents, \<open>createBox\<close> gives a mesh with 8 vertices and 12 triangles,
  the index array being the fixed table and the vertex array the 64 floats of the
  eight corners; nothing of the object's former arrays is left. In particular, a second
  call with other extents gives the box of the second call.
\<close>

theorem createBox_replaces:
  "createBox xsize ysize zsize soup =
     Inr \<lparr>nverts = 8, ntris = 12,
          vertexarray = box_vertex_array_data xsize ysize zsize,
          indexarray = box_index_array_data\<rparr>
   \<and> length (box_vertex_array_data xsize ysize zsize) = 8 * 8
   \<and> length box_index_array_data = 3 * 12
   \<and> bind_res (createBox xsize ysize zsize soup) (createBox xsize' ysize' zsize') =
     Inr \<lparr>nverts = 8, ntris = 12,
          vertexarray = box_vertex_array_data xsize' ysize' zsize',
          indexarray = box_index_array_data\<rparr>"
  by (simp add: createBox_eq box_vertex_array_data_def box_index_array_data_def)

theorem createBox_replaces_witness:
  "createBox 1 1 1 empty_soup =
     Inr \<lparr>nverts = 8, ntris = 12,
          vertexarray =
            [-1, -1, -1, 0, 0, 1, 0, 0,
             1, -1, -1, 0, 0, 1, 0, 0,
             -1, 1, -1, 0, 0, 1, 0, 0,
             1, 1, -1, 0, 0, 1, 0, 0,
             -1, -1, 1, 0, 0, 1, 0, 0,
             1, -1, 1, 0, 0, 1, 0, 0,
             -1, 1, 1, 0, 0, 1, 0, 0,
             1, 1, 1, 0, 0, 1, 0, 0],
          indexarray =
            [0, 3, 1, 0, 2, 3, 1, 4, 0, 1, 5, 4, 4, 2, 0, 4, 6, 2,
             1, 3, 7, 1, 7, 5, 7, 2, 6, 7, 3, 2, 4, 5, 7, 4, 7, 6]\<rparr>
   \<and> bind_res (createBox 1 1 1 empty_soup) (createBox 2 3 4) =
     Inr \<lparr>nverts = 8, ntris = 12,
          vertexarray =
            [-2, -3, -4, 0, 0, 1, 0, 0,
             2, -3, -4, 0, 0, 1, 0, 0,
             -2, 3, -4, 0, 0, 1, 0, 0,
             2, 3, -4, 0, 0, 1, 0, 0,
             -2, -3, 4, 0, 0, 1, 0, 0,
             2, -3, 4, 0, 0, 1, 0, 0,
             -2, 3, 4, 0, 0, 1, 0, 0,
             2, 3, 4, 0, 0, 1, 0, 0],
          indexarray =
            [0, 3, 1, 0, 2, 3, 1, 4, 0, 1, 5, 4, 4, 2, 0, 4, 6, 2,
             1, 3, 7, 1, 7, 5, 7, 2, 6, 7, 3, 2, 4, 5, 7, 4, 7, 6]\<rparr>"
proof (rule conjI)
  note box = createBox_replaces [of 1 1 1 empty_soup 2 3 4]
  show "createBox 1 1 1 empty_soup =
     Inr \<lparr>nverts = 8, ntris = 12,
          vertexarray =
            [-1, -1, -1, 0, 0, 1, 0, 0,
             1, -1, -1, 0, 0, 1, 0, 0,
             -1, 1, -1, 0, 0, 1, 0, 0,
             1, 1, -1, 0, 0, 1, 0, 0,
             -1, -1, 1, 0, 0, 1, 0, 0,
             1, -1, 1, 0, 0, 1, 0, 0,
             -1, 1, 1, 0, 0, 1, 0, 0,
             1, 1, 1, 0, 0, 1, 0, 0],
          indexarray =
            [0, 3, 1, 0, 2, 3, 1, 4, 0, 1, 5, 4, 4, 2, 0, 4, 6, 2,
             1, 3, 7, 1, 7, 5, 7, 2, 6, 7, 3, 2, 4, 5, 7, 4, 7, 6]\<rparr>"
    using box [THEN conjunct1]
    by (simp add: empty_soup_def box_vertex_array_data_def box_index_array_data_def)
  show "bind_res (createBox 1 1 1 empty_soup) (createBox 2 3 4) =
     Inr \<lparr>nverts = 8, ntris = 12,
          vertexarray =
            [-2, -3, -4, 0, 0, 1, 0, 0,
             2, -3, -4, 0, 0, 1, 0, 0,
             -2, 3, -4, 0, 0, 1, 0, 0,
             2, 3, -4, 0, 0, 1, 0, 0,
             -2, -3, 4, 0, 0, 1, 0, 0,
             2, -3, 4, 0, 0, 1, 0, 0,
             -2, 3, 4, 0, 0, 1, 0, 0,
             2, 3, 4, 0, 0, 1, 0, 0],
          indexarray =
            [0, 3, 1, 0, 2, 3, 1, 4, 0, 1, 5, 4, 4, 2, 0, 4, 6, 2,
             1, 3, 7, 1, 7, 5, 7, 2, 6, 7, 3, 2, 4, 5, 7, 4, 7, 6]\<rparr>"
    using box [THEN conjunct2, THEN conjunct2, THEN conjunct2]
    by (simp add: empty_soup_def box_vertex_array_data_def box_index_array_data_def)
qed

subsection \<open>createSphere\<close>

lemma sphere_vertex_ok:
  assumes "0 \<le> j" "j \<le> v - 2" "0 \<le> i" "i \<le> h" "0 \<le> h"
    and "int (length va) = (1 + (v - 1) * (h + 1) + 1) * 8"
  shows "\<exists>va'. sphere_vertex r v h j i va = Inr va' \<and> length va' = length va"
proof -
  define A where "A = j * (h + 1)"
  define B where "B = (v - 2) * (h + 1)"
  have AB: "A \<le> B" "0 \<le> A"
    unfolding A_def B_def using assms by (simp_all add: mult_right_mono)
  have "(v - 1) * (h + 1) = B + (h + 1)"
    unfolding B_def by (simp add: algebra_simps)
  then have len: "int (length va) = (1 + (B + (h + 1)) + 1) * 8"
    using assms(6) by simp
  have "0 \<le> (1 + A + i) * 8" "(1 + A + i) * 8 + 8 \<le> int (length va)"
    unfolding len using AB assms(3,4) by simp_all
  then show ?thesis
    unfolding sphere_vertex_def Let_def A_def by (intro store_length) simp_all
qed

lemma sphere_top_ok:
  assumes "0 \<le> i" "i \<le> h - 1" "2 \<le> v" "0 \<le> h"
    and "nt = h + (v - 2) * h * 2 + h" "nv = 1 + (v - 1) * (h + 1) + 1" "nv \<le> 2 ^ 31"
    and "ia_inv (nt * 3) nv ia"
  shows "\<exists>ia'. store ia (3 * i) (map word_of_int [0, 1 + i, 2 + i]) = Inr ia' \<and> ia_inv (nt * 3) nv ia'"
proof -
  define B where "B = (v - 2) * h"
  define C where "C = (v - 2) * (h + 1)"
  have BC: "0 \<le> B" "0 \<le> C" unfolding B_def C_def using assms by simp_all
  have nt: "nt = h + B * 2 + h" using assms(5) by (simp add: B_def)
  have "(v - 1) * (h + 1) = C + (h + 1)" unfolding C_def by (simp add: algebra_simps)
  then have nv: "nv = 1 + (C + (h + 1)) + 1" using assms(6) by simp
  show ?thesis
  proof (rule store_ia_inv[OF assms(8) _ _ assms(7)])
    show "0 \<le> 3 * i" using assms by simp
    show "3 * i + int (length [0, 1 + i, 2 + i]) \<le> nt * 3"
      unfolding nt using BC assms(1,2) by simp
    show "0 \<le> k \<and> k < nv" if "k \<in> set [0, 1 + i, 2 + i]" for k
      using that BC assms(1,2) unfolding nv by auto
  qed
qed

lemma sphere_middle_ok:
  assumes "0 \<le> j" "j \<le> v - 3" "0 \<le> i" "i \<le> h - 1" "0 \<le> h"
    and "nt = h + (v - 2) * h * 2 + h" "nv = 1 + (v - 1) * (h + 1) + 1" "nv \<le> 2 ^ 31"
    and "ia_inv (nt * 3) nv ia"
  shows "\<exists>ia'. sphere_middle h j i ia = Inr ia' \<and> ia_inv (nt * 3) nv ia'"
proof -
  define A where "A = j * h"
  define B where "B = (v - 3) * h"
  define A' where "A' = j * (h + 1)"
  define B' where "B' = (v - 3) * (h + 1)"
  have AB: "A \<le> B" "0 \<le> A" "A' \<le> B'" "0 \<le> A'"
    unfolding A_def B_def A'_def B'_def using assms by (simp_all add: mult_right_mono)
  have "(v - 2) * h = B + h" unfolding B_def by (simp add: algebra_simps)
  then have nt: "nt = h + (B + h) * 2 + h" using assms(6) by simp
  have "(v - 1) * (h + 1) = B' + 2 * (h + 1)" unfolding B'_def by (simp add: algebra_simps)
  then have nv: "nv = 1 + (B' + 2 * (h + 1)) + 1" using assms(7) by simp
  have "\<exists>ia'. store ia (3 * (h + 2 * (A + i)))
          (map word_of_int [1 + A' + i, 1 + A' + i + h + 1, 1 + A' + i + 1, 1 + A' + i + 1,
             1 + A' + i + h + 1, 1 + A' + i + h + 2]) = Inr ia' \<and> ia_inv (nt * 3) nv ia'"
  proof (rule store_ia_inv[OF assms(9) _ _ assms(8)])
    show "0 \<le> 3 * (h + 2 * (A + i))" using assms AB by simp
    show "3 * (h + 2 * (A + i)) + int (length [1 + A' + i, 1 + A' + i + h + 1, 1 + A' + i + 1, 1 + A' + i + 1,
             1 + A' + i + h + 1, 1 + A' + i + h + 2]) \<le> nt * 3"
      unfolding nt using AB assms(3,4) by simp
    show "0 \<le> k \<and> k < nv" if "k \<in> set [1 + A' + i, 1 + A' + i + h + 1, 1 + A' + i + 1, 1 + A' + i + 1,
             1 + A' + i + h + 1, 1 + A' + i + h + 2]" for k
      using that AB assms(3,4,5) unfolding nv by auto
  qed
  then show ?thesis
    unfolding sphere_middle_def Let_def A_def A'_def .
qed

lemma sphere_bottom_ok:
  assumes "0 \<le> i" "i \<le> h - 1" "2 \<le> v" "0 \<le> h"
    and "nt = h + (v - 2) * h * 2 + h" "nv = 1 + (v - 1) * (h + 1) + 1" "nv \<le> 2 ^ 31"
    and "ia_inv (nt * 3) nv ia"
  shows "\<exists>ia'. store ia (3 * (h + 2 * (v - 2) * h) + 3 * i) (map word_of_int [nv - 1, nv - 2 - i, nv - 3 - i]) = Inr ia'
     \<and> ia_inv (nt * 3) nv ia'"
proof -
  define B where "B = (v - 2) * h"
  define C where "C = (v - 2) * (h + 1)"
  have BC: "0 \<le> B" "0 \<le> C" unfolding B_def C_def using assms by simp_all
  have nt: "nt = h + B * 2 + h" using assms(5) by (simp add: B_def)
  have "(v - 1) * (h + 1) = C + (h + 1)" unfolding C_def by (simp add: algebra_simps)
  then have nv: "nv = 1 + (C + (h + 1)) + 1" using assms(6) by simp
  have base: "3 * (h + 2 * (v - 2) * h) + 3 * i = 3 * (h + 2 * B) + 3 * i"
    by (simp add: B_def)
  show ?thesis
    unfolding base
  proof (rule store_ia_inv[OF assms(8) _ _ assms(7)])
    show "0 \<le> 3 * (h + 2 * B) + 3 * i" using assms BC by simp
    show "3 * (h + 2 * B) + 3 * i + int (length [nv - 1, nv - 2 - i, nv - 3 - i]) \<le> nt * 3"
      unfolding nt using BC assms(1,2) by simp
    show "0 \<le> k \<and> k < nv" if "k \<in> set [nv - 1, nv - 2 - i, nv - 3 - i]" for k
      using that BC assms(1,2) unfolding nv by auto
  qed
qed

lemma createSphere_ok:
  assumes "segments \<le> 11585"
  shows "\<exists>soup'. createSphere radius segments soup = Inr soup'
     \<and> nverts soup' = 1 + (max segments 2 - 1) * (max segments 2 * 2 + 1) + 1
     \<and> ntris soup' = max segments 2 * 2 + (max segments 2 - 2) * (max segments 2 * 2) * 2 + max segments 2 * 2
     \<and> int (length (vertexarray soup')) = nverts soup' * 8
     \<and> ia_inv (ntris soup' * 3) (nverts soup') (indexarray soup')"
proof -
  define v where "v = max segments 2"
  define h where "h = v * 2"
  define nv where "nv = 1 + (v - 1) * (h + 1) + 1"
  define nt where "nt = h + (v - 2) * h * 2 + h"
  have v: "2 \<le> v" "v \<le> 11585" using assms by (simp_all add: v_def)
  have h: "4 \<le> h" "h \<le> 23170" using v by (simp_all add: h_def)
  define P where "P = (v - 1) * (h + 1)"
  define Q where "Q = (v - 2) * h"
  have P: "0 \<le> P" "P \<le> 11584 * 23171"
    unfolding P_def using v h by (simp, intro mult_mono) simp_all
  have Q: "0 \<le> Q" "Q \<le> 11583 * 23170"
    unfolding Q_def using v h by (simp, intro mult_mono) simp_all
  have nvP: "nv = 1 + P + 1" by (simp add: nv_def P_def)
  have ntQ: "nt = h + Q * 2 + h" by (simp add: nt_def Q_def)
  have ok: "int_ok h" "int_ok nv" "int_ok nt" "int_ok (nv * 8)" "int_ok (nt * 3)"
    unfolding nvP ntQ int_ok_def using P Q h by simp_all
  have nv31: "nv \<le> 2 ^ 31" using ok(2) by (simp add: int_ok_def)
  have P7: "h + 1 \<le> P"
  proof -
    have "1 * (h + 1) \<le> (v - 1) * (h + 1)" using v h by (intro mult_right_mono) simp_all
    then show ?thesis by (simp add: P_def)
  qed
  have nvnt0: "0 \<le> nv" "0 \<le> nt" "7 \<le> nv" unfolding nvP ntQ using P P7 Q h by simp_all
  define va0 :: "GLfloat list" where "va0 = resize (nat (nv * 8)) []"
  define ia0 :: "GLuint list" where "ia0 = resize (nat (nt * 3)) []"
  have lva0: "int (length va0) = nv * 8" using nvnt0 by (simp add: va0_def)
  obtain va1 where va1: "store va0 0 [0, 0, radius, 0, 0, 1, 0.5, 1] = Inr va1" "length va1 = length va0"
    using store_length[of 0 "[0, 0, radius, 0, 0, 1, 0.5, 1]" va0] lva0 nvnt0 by auto
  obtain va2 where va2: "store va1 ((nv - 1) * 8) [0, 0, - radius, 0, 0, -1, 0.5, 0] = Inr va2"
      "length va2 = length va0"
    using store_length[of "(nv - 1) * 8" "[0, 0, - radius, 0, 0, -1, 0.5, 0]" va1] lva0 nvnt0 va1(2) by auto
  have lva2: "int (length va2) = nv * 8" using va2(2) lva0 by simp
  obtain va3 where va3: "for_loop [0..v - 2] (\<lambda>j. for_loop [0..h] (sphere_vertex radius v h j)) va2 = Inr va3"
      "int (length va3) = nv * 8"
  proof -
    have "\<exists>va'. for_loop [0..v - 2] (\<lambda>j. for_loop [0..h] (sphere_vertex radius v h j)) va2 = Inr va'
        \<and> int (length va') = nv * 8"
    proof (rule for_loop_inv[where I = "\<lambda>va. int (length va) = nv * 8", OF lva2])
      fix j and va :: "GLfloat list" assume j: "j \<in> set [0..v - 2]" and va: "int (length va) = nv * 8"
      show "\<exists>va'. for_loop [0..h] (sphere_vertex radius v h j) va = Inr va' \<and> int (length va') = nv * 8"
      proof (rule for_loop_inv[where I = "\<lambda>va. int (length va) = nv * 8", OF va])
        fix i and va :: "GLfloat list" assume i: "i \<in> set [0..h]" and va: "int (length va) = nv * 8"
        show "\<exists>va'. sphere_vertex radius v h j i va = Inr va' \<and> int (length va') = nv * 8"
          using sphere_vertex_ok[of j v i h va radius] i j va h by (auto simp: nv_def)
      qed
    qed
    then show ?thesis using that by blast
  qed
  have inv0: "ia_inv (nt * 3) nv ia0"
    using nvnt0 by (auto simp: ia_inv_def ia0_def resize_def list_all_iff)
  obtain ia1 where ia1: "for_loop [0..h - 1] (\<lambda>i ia. store ia (3 * i) (map word_of_int [0, 1 + i, 2 + i])) ia0 = Inr ia1"
      "ia_inv (nt * 3) nv ia1"
  proof -
    have "\<exists>ia'. for_loop [0..h - 1] (\<lambda>i ia. store ia (3 * i) (map word_of_int [0, 1 + i, 2 + i])) ia0 = Inr ia'
        \<and> ia_inv (nt * 3) nv ia'"
    proof (rule for_loop_inv[where I = "ia_inv (nt * 3) nv", OF inv0])
      fix i ia assume "i \<in> set [0..h - 1]" "ia_inv (nt * 3) nv ia"
      then show "\<exists>ia'. store ia (3 * i) (map word_of_int [0, 1 + i, 2 + i]) = Inr ia' \<and> ia_inv (nt * 3) nv ia'"
        using v h nv31 by (intro sphere_top_ok[where v = v and h = h]) (simp_all add: nt_def nv_def)
    qed
    then show ?thesis using that by blast
  qed
  obtain ia2 where ia2: "for_loop [0..v - 3] (\<lambda>j. for_loop [0..h - 1] (sphere_middle h j)) ia1 = Inr ia2"
      "ia_inv (nt * 3) nv ia2"
  proof -
    have "\<exists>ia'. for_loop [0..v - 3] (\<lambda>j. for_loop [0..h - 1] (sphere_middle h j)) ia1 = Inr ia'
        \<and> ia_inv (nt * 3) nv ia'"
    proof (rule for_loop_inv[where I = "ia_inv (nt * 3) nv", OF ia1(2)])
      fix j ia assume j: "j \<in> set [0..v - 3]" and ia: "ia_inv (nt * 3) nv ia"
      show "\<exists>ia'. for_loop [0..h - 1] (sphere_middle h j) ia = Inr ia' \<and> ia_inv (nt * 3) nv ia'"
      proof (rule for_loop_inv[where I = "ia_inv (nt * 3) nv", OF ia])
        fix i ia assume "i \<in> set [0..h - 1]" "ia_inv (nt * 3) nv ia"
        then show "\<exists>ia'. sphere_middle h j i ia = Inr ia' \<and> ia_inv (nt * 3) nv ia'"
          using j v h nv31 by (intro sphere_middle_ok[where v = v]) (simp_all add: nt_def nv_def)
      qed
    qed
    then show ?thesis using that by blast
  qed
  obtain ia3 where ia3: "for_loop [0..h - 1]
        (\<lambda>i ia. store ia (3 * (h + 2 * (v - 2) * h) + 3 * i) (map word_of_int [nv - 1, nv - 2 - i, nv - 3 - i])) ia2 = Inr ia3"
      "ia_inv (nt * 3) nv ia3"
  proof -
    have "\<exists>ia'. for_loop [0..h - 1]
        (\<lambda>i ia. store ia (3 * (h + 2 * (v - 2) * h) + 3 * i) (map word_of_int [nv - 1, nv - 2 - i, nv - 3 - i])) ia2 = Inr ia'
        \<and> ia_inv (nt * 3) nv ia'"
    proof (rule for_loop_inv[where I = "ia_inv (nt * 3) nv", OF ia2(2)])
      fix i ia assume "i \<in> set [0..h - 1]" "ia_inv (nt * 3) nv ia"
      then show "\<exists>ia'. store ia (3 * (h + 2 * (v - 2) * h) + 3 * i) (map word_of_int [nv - 1, nv - 2 - i, nv - 3 - i]) = Inr ia'
          \<and> ia_inv (nt * 3) nv ia'"
        using v h nv31 by (intro sphere_bottom_ok[where v = v and h = h]) (simp_all add: nt_def nv_def)
    qed
    then show ?thesis using that by blast
  qed
  have "createSphere radius segments soup
      = Inr (clean soup\<lparr>nverts := nv, ntris := nt, vertexarray := va3, indexarray := ia3\<rparr>)"
    unfolding createSphere_def Let_def
    using ok va1(1) va2(1) va3(1) ia1(1) ia2(1) ia3(1)
    unfolding va0_def ia0_def nv_def nt_def h_def v_def
    by (simp add: clean_def)
  then show ?thesis
    using va3(2) ia3(2) unfolding nv_def nt_def h_def v_def by simp
qed


lemma createSphere_overflow:
  assumes "11585 < segments"
  shows "createSphere radius segments soup = Inl SignedOverflow"
proof -
  define v where "v = max segments 2"
  have v: "11586 \<le> v" using assms by (simp add: v_def)
  have "11585 * 23173 \<le> (v - 1) * (v * 2 + 1)"
    using v by (intro mult_mono) simp_all
  then have "\<not> int_ok ((1 + (v - 1) * (v * 2 + 1) + 1) * 8)"
    by (simp add: int_ok_def)
  then show ?thesis
    unfolding createSphere_def Let_def v_def by simp
qed

lemma upto_unfold: "[i..j] = (if i \<le> j then i # [i + 1..j] else [])"
  by (simp add: upto.simps)

lemma sphere2_indices:
  "\<exists>vs. createSphere 1 2 empty_soup =
     Inr \<lparr>nverts = 7, ntris = 8, vertexarray = vs,
          indexarray = [0, 1, 2, 0, 2, 3, 0, 3, 4, 0, 4, 5, 6, 5, 4, 6, 4, 3, 6, 3, 2, 6, 2, 1]\<rparr>"
  by (simp add: createSphere_def Let_def int_ok_def clean_def empty_soup_def resize_def
        store_def sphere_vertex_def sphere_middle_def upto_unfold)

text \<open>
  C1, as amended. For every radius and every \<open>segments\<close> up to 11585, \<open>createSphere\<close>
  with \<open>vsegs = max(segments, 2)\<close> and \<open>hsegs = 2 * vsegs\<close> gives a mesh with
  \<open>1 + (vsegs - 1) * (hsegs + 1) + 1\<close> vertices and
  \<open>hsegs + (vsegs - 2) * hsegs * 2 + hsegs\<close> triangles, and every entry of its index
  array is less than the number of vertices. From 11586 segments on, \<open>nverts_ * 8\<close> does
  not fit an \<open>int\<close>.
\<close>

theorem createSphere_counts_and_indices:
  assumes "segments \<le> 11585"
  shows "let vsegs = max segments 2; hsegs = 2 * vsegs in
         \<exists>soup'. createSphere radius segments soup = Inr soup' \<and>
           nverts soup' = 1 + (vsegs - 1) * (hsegs + 1) + 1 \<and>
           ntris soup' = hsegs + (vsegs - 2) * hsegs * 2 + hsegs \<and>
           (\<forall>x\<in>set (indexarray soup'). uint x < nverts soup')"
proof -
  from createSphere_ok[OF assms, of radius soup] obtain soup' where
    s: "createSphere radius segments soup = Inr soup'"
       "nverts soup' = 1 + (max segments 2 - 1) * (max segments 2 * 2 + 1) + 1"
       "ntris soup' = max segments 2 * 2 + (max segments 2 - 2) * (max segments 2 * 2) * 2 + max segments 2 * 2"
       "ia_inv (ntris soup' * 3) (nverts soup') (indexarray soup')"
    by blast
  have "\<forall>x\<in>set (indexarray soup'). uint x < nverts soup'"
    using s(4) by (simp add: ia_inv_def list_all_iff)
  then show ?thesis
    unfolding Let_def using s(1,2,3) by (simp add: mult.commute)
qed

theorem createSphere_counts_and_indices_witness:
  "(2 :: int) \<le> 11585 \<and>
   (\<exists>vs. createSphere 1 2 empty_soup =
      Inr \<lparr>nverts = 7, ntris = 8, vertexarray = vs,
           indexarray = [0, 1, 2, 0, 2, 3, 0, 3, 4, 0, 4, 5, 6, 5, 4, 6, 4, 3, 6, 3, 2, 6, 2, 1]\<rparr>) \<and>
   list_all (\<lambda>x. uint x < 7)
     [0, 1, 2, 0, 2, 3, 0, 3, 4, 0, 4, 5, 6, 5, 4, 6, 4, 3, 6, 3, 2, 6, 2, 1 :: GLuint]"
proof -
  have h: "(2 :: int) \<le> 11585" by simp
  from sphere2_indices obtain vs where vs: "createSphere 1 2 empty_soup =
      Inr \<lparr>nverts = 7, ntris = 8, vertexarray = vs,
           indexarray = [0, 1, 2, 0, 2, 3, 0, 3, 4, 0, 4, 5, 6, 5, 4, 6, 4, 3, 6, 3, 2, 6, 2, 1]\<rparr>"
    by blast
  have "list_all (\<lambda>x. uint x < 7)
     [0, 1, 2, 0, 2, 3, 0, 3, 4, 0, 4, 5, 6, 5, 4, 6, 4, 3, 6, 3, 2, 6, 2, 1 :: GLuint]"
    using createSphere_counts_and_indices [OF h, of 1 empty_soup] vs
    by (simp add: Let_def list_all_iff)
  then show ?thesis using h vs by blast
qed

theorem createSphere_overflow_counterexample:
  "createSphere 1 11586 empty_soup = Inl SignedOverflow"
  by (simp add: createSphere_def Let_def int_ok_def)

subsection \<open>readOBJ: the sizes of the arrays\<close>

lemma bind_res_eq_Inr:
  "bind_res r f = Inr y \<longleftrightarrow> (\<exists>x. r = Inr x \<and> f x = Inr y)"
  by (cases r) simp_all

lemma store_Inr_length: "store xs base vals = Inr xs' \<Longrightarrow> length xs' = length xs"
  by (auto simp: store_def split: if_splits)


lemma parse_line_lengths:
  assumes "parse_line sf line st = Inr st'"
  shows "length (st_vertexarray st') = length (st_vertexarray st) \<and>
         length (st_indexarray st') = length (st_indexarray st)"
  using assms
  unfolding parse_line_def Let_def
  by (auto simp: bind_res_eq_Inr split: if_splits prod.splits dest: store_Inr_length)

lemma parse_pass_lengths:
  "parse_pass sf ls st = Inr st' \<Longrightarrow>
     length (st_vertexarray st') = length (st_vertexarray st) \<and>
     length (st_indexarray st') = length (st_indexarray st)"
proof (induction ls arbitrary: st)
  case Nil
  then show ?case by simp
next
  case (Cons l ls)
  from Cons.prems obtain st1 where st1: "parse_line sf (c_str l) st = Inr st1"
      "(if readerror st1 then Inr st1 else parse_pass sf ls st1) = Inr st'"
    by (auto simp: bind_res_eq_Inr)
  show ?case
  proof (cases "readerror st1")
    case True
    then show ?thesis using st1 parse_line_lengths[OF st1(1)] by simp
  next
    case False
    then have "parse_pass sf ls st1 = Inr st'" using st1(2) by simp
    from Cons.IH[OF this] parse_line_lengths[OF st1(1)] show ?thesis by simp
  qed
qed

lemma count_pass_nonneg:
  "0 \<le> numfaces c \<Longrightarrow> 0 \<le> numfaces (count_pass sf ls tag c)"
  by (induction ls arbitrary: tag c) (auto simp: Let_def)

lemma readOBJ_found_mesh_inv:
  assumes "fs filename = Some content" "readOBJ fs sf tag0 filename soup = Inr (msgs, soup')"
  shows "mesh_inv soup'"
proof -
  define c where "c = first_pass sf tag0 content"
  have nf: "0 \<le> numfaces c"
    unfolding c_def first_pass_def by (rule count_pass_nonneg) simp
  define st0 where "st0 = \<lparr>i_v = 0, i_n = 0, i_t = 0, i_f = 0,
                       verts = replicate (nat (3 * numverts c)) 0,
                       normals = replicate (nat (3 * numnormals c)) 0,
                       texcoords = replicate (nat (2 * numtexcoords c)) 0,
                       st_vertexarray = resize (nat (8 * 3 * numfaces c)) (vertexarray soup),
                       st_indexarray = resize (nat (3 * numfaces c)) (indexarray soup),
                       readerror = False, cerr = []\<rparr>"
  from assms obtain st where st: "parse_pass sf (file_lines content) st0 = Inr st"
    and res: "(msgs, soup') =
       (if readerror st
        then (cerr st @ [Mesh_read_error],
              clean (soup\<lparr>nverts := 3 * numfaces c, ntris := numfaces c,
                           vertexarray := st_vertexarray st, indexarray := st_indexarray st\<rparr>))
        else (cerr st, soup\<lparr>nverts := 3 * numfaces c, ntris := numfaces c,
                           vertexarray := st_vertexarray st, indexarray := st_indexarray st\<rparr>))"
    unfolding readOBJ_def Let_def c_def first_pass_def st0_def
    by (auto simp: bind_res_eq_Inr split: if_splits)
  have len: "length (st_vertexarray st) = nat (8 * 3 * numfaces c)"
     "length (st_indexarray st) = nat (3 * numfaces c)"
    using parse_pass_lengths[OF st] by (simp_all add: st0_def)
  show ?thesis
    using res len nf by (auto simp: mesh_inv_def clean_def split: if_splits)
qed

lemma readOBJ_not_found:
  "fs filename = None \<Longrightarrow> readOBJ fs sf tag0 filename soup = Inr ([File_not_found filename], soup)"
  by (simp add: readOBJ_def)

subsection \<open>readOBJ: lines that end the import\<close>



lemma parse_line_ignored:
  "\<not> recognized (scan_tag sf [] line) \<Longrightarrow> parse_line sf line st = Inr st"
  by (simp add: parse_line_def recognized_def Let_def)


subsection \<open>readOBJ: accesses within the arrays\<close>

lemma sscanf_length: "length (sscanf sf fmt s) \<le> conversions fmt"
  by (induction sf fmt s rule: sscanf.induct) (auto simp: Let_def split: list.splits option.splits)

lemma float_args_length: "length (float_args xs) \<le> length xs"
  by (induction xs rule: float_args.induct) auto

lemma scan_tag_keeps:
  "scan_tag sf [] line = t \<Longrightarrow> t \<noteq> [] \<Longrightarrow> scan_tag sf tag line = t"
  by (auto simp: scan_tag_def split: list.splits scanned.splits)

lemma tag_count_Cons:
  "tag_count sf t (l # ls) = (if scan_tag sf [] (c_str l) = t then 1 else 0) + tag_count sf t ls"
  by (simp add: tag_count_def)

lemma tag_count_nonneg: "0 \<le> tag_count sf t ls"
  by (simp add: tag_count_def)

lemma count_pass_ge:
  "numverts c + tag_count sf ''v'' ls \<le> numverts (count_pass sf ls tag c) \<and>
   numnormals c + tag_count sf ''vn'' ls \<le> numnormals (count_pass sf ls tag c) \<and>
   numtexcoords c + tag_count sf ''vt'' ls \<le> numtexcoords (count_pass sf ls tag c) \<and>
   numfaces c + tag_count sf ''f'' ls \<le> numfaces (count_pass sf ls tag c)"
proof (induction ls arbitrary: tag c)
  case Nil
  then show ?case by (simp add: tag_count_def)
next
  case (Cons l ls)
  define t0 where "t0 = scan_tag sf [] (c_str l)"
  define t1 where "t1 = scan_tag sf tag (c_str l)"
  have keep: "t1 = t0" if "t0 \<noteq> []"
    using scan_tag_keeps[of sf "c_str l" t0 tag] that by (simp add: t0_def t1_def)
  define c' where "c' = (if t1 = ''v'' then c\<lparr>numverts := numverts c + 1\<rparr>
         else if t1 = ''vn'' then c\<lparr>numnormals := numnormals c + 1\<rparr>
         else if t1 = ''vt'' then c\<lparr>numtexcoords := numtexcoords c + 1\<rparr>
         else if t1 = ''f'' then c\<lparr>numfaces := numfaces c + 1\<rparr>
         else c)"
  have cp: "count_pass sf (l # ls) tag c = count_pass sf ls t1 c'"
    by (simp add: Let_def t1_def c'_def)
  have step: "numverts c + (if t0 = ''v'' then 1 else 0) \<le> numverts c'"
     "numnormals c + (if t0 = ''vn'' then 1 else 0) \<le> numnormals c'"
     "numtexcoords c + (if t0 = ''vt'' then 1 else 0) \<le> numtexcoords c'"
     "numfaces c + (if t0 = ''f'' then 1 else 0) \<le> numfaces c'"
    using keep by (auto simp: c'_def)
  show ?case
    unfolding cp tag_count_Cons t0_def[symmetric]
    using Cons.IH[of c' t1] step by auto
qed

lemma load_ok:
  "0 \<le> base \<Longrightarrow> base + int n \<le> int (length xs) \<Longrightarrow>
     \<exists>ys. load xs base n = Inr ys \<and> length ys = n"
  by (auto simp: load_def)

lemma face_data_ok:
  assumes "int (length vs) = 3 * nv" "int (length ns) = 3 * nn" "int (length ts) = 2 * nt"
    and "0 \<le> v1 \<and> v1 < nv" "0 \<le> t1 \<and> t1 < nt" "0 \<le> n1 \<and> n1 < nn"
    and "0 \<le> v2 \<and> v2 < nv" "0 \<le> t2 \<and> t2 < nt" "0 \<le> n2 \<and> n2 < nn"
    and "0 \<le> v3 \<and> v3 < nv" "0 \<le> t3 \<and> t3 < nt" "0 \<le> n3 \<and> n3 < nn"
  shows "\<exists>fd. face_data vs ns ts v1 t1 n1 v2 t2 n2 v3 t3 n3 = Inr fd \<and> length fd = 24"
proof -
  have v: "\<exists>ys. load vs (3 * k) 3 = Inr ys \<and> length ys = 3" if "0 \<le> k \<and> k < nv" for k
    using that assms(1) by (intro load_ok) simp_all
  have n: "\<exists>ys. load ns (3 * k) 3 = Inr ys \<and> length ys = 3" if "0 \<le> k \<and> k < nn" for k
    using that assms(2) by (intro load_ok) simp_all
  have t: "\<exists>ys. load ts (2 * k) 2 = Inr ys \<and> length ys = 2" if "0 \<le> k \<and> k < nt" for k
    using that assms(3) by (intro load_ok) simp_all
  from v[OF assms(4)] n[OF assms(6)] t[OF assms(5)]
       v[OF assms(7)] n[OF assms(9)] t[OF assms(8)]
       v[OF assms(10)] n[OF assms(12)] t[OF assms(11)]
  show ?thesis
    unfolding face_data_def by (clarsimp)
qed

lemma scan_floats_ok:
  assumes "0 \<le> base" "base + int n \<le> int (length arr)" "conversions fmt \<le> n"
  shows "\<exists>arr'. scan_floats sf fmt line arr base n = Inr (int (length (sscanf sf fmt line)), arr')
           \<and> length arr' = length arr"
proof -
  have "length (float_args (sscanf sf fmt line)) \<le> n"
    using float_args_length[of "sscanf sf fmt line"] sscanf_length[of sf fmt line] assms(3) by simp
  then have "base + int (length (float_args (sscanf sf fmt line))) \<le> int (length arr)"
    using assms(2) by simp
  from store_length[OF assms(1) this] load_ok[OF assms(1,2)]
  show ?thesis by (auto simp: scan_floats_def Let_def)
qed

lemma parse_line_step:
  assumes inv: "pass_inv sf c (l # rest) st" and face: "face_in_range sf c (c_str l)"
  shows "\<exists>st'. parse_line sf (c_str l) st = Inr st' \<and> (readerror st' \<or> pass_inv sf c rest st')"
proof -
  define t where "t = scan_tag sf [] (c_str l)"
  note tc = tag_count_Cons[of sf _ l rest, folded t_def]
  note nn = tag_count_nonneg[of sf _ rest]
  consider (v) "t = ''v''" | (vn) "t = ''vn''" | (vt) "t = ''vt''" | (f) "t = ''f''"
    | (other) "\<not> recognized t"
    by (auto simp: recognized_def)
  then show ?thesis
  proof cases
    case v
    have room: "0 \<le> 3 * i_v st" "3 * i_v st + int 3 \<le> int (length (verts st))"
      using inv nn[of "''v''"] by (simp_all add: pass_inv_def tc v)
    from scan_floats_ok[OF room, of fmt_v sf "c_str l"] obtain arr where
      arr: "scan_floats sf fmt_v (c_str l) (verts st) (3 * i_v st) 3
              = Inr (int (length (sscanf sf fmt_v (c_str l))), arr)" "length arr = length (verts st)"
      by (auto simp: fmt_v_def)
    show ?thesis
      using inv arr
      by (auto simp: parse_line_def Let_def t_def[symmetric] v pass_inv_def tc)
  next
    case vn
    have room: "0 \<le> 3 * i_n st" "3 * i_n st + int 3 \<le> int (length (normals st))"
      using inv nn[of "''vn''"] by (simp_all add: pass_inv_def tc vn)
    from scan_floats_ok[OF room, of fmt_vn sf "c_str l"] obtain arr where
      arr: "scan_floats sf fmt_vn (c_str l) (normals st) (3 * i_n st) 3
              = Inr (int (length (sscanf sf fmt_vn (c_str l))), arr)" "length arr = length (normals st)"
      by (auto simp: fmt_vn_def)
    show ?thesis
      using inv arr
      by (auto simp: parse_line_def Let_def t_def[symmetric] vn pass_inv_def tc)
  next
    case vt
    have room: "0 \<le> 2 * i_t st" "2 * i_t st + int 2 \<le> int (length (texcoords st))"
      using inv nn[of "''vt''"] by (simp_all add: pass_inv_def tc vt)
    from scan_floats_ok[OF room, of fmt_vt sf "c_str l"] obtain arr where
      arr: "scan_floats sf fmt_vt (c_str l) (texcoords st) (2 * i_t st) 2
              = Inr (int (length (sscanf sf fmt_vt (c_str l))), arr)" "length arr = length (texcoords st)"
      by (auto simp: fmt_vt_def)
    show ?thesis
      using inv arr
      by (auto simp: parse_line_def Let_def t_def[symmetric] vt pass_inv_def tc)
  next
    case f
    define args where "args = sscanf sf fmt_f (c_str l)"
    show ?thesis
    proof (cases "length args = 9")
      case False
      then show ?thesis
        by (simp add: parse_line_def Let_def t_def[symmetric] f args_def[symmetric])
    next
      case True
      from face True have rng:
        "index_in_range (numverts c) (args ! 0)" "index_in_range (numtexcoords c) (args ! 1)"
        "index_in_range (numnormals c) (args ! 2)"
        "index_in_range (numverts c) (args ! 3)" "index_in_range (numtexcoords c) (args ! 4)"
        "index_in_range (numnormals c) (args ! 5)"
        "index_in_range (numverts c) (args ! 6)" "index_in_range (numtexcoords c) (args ! 7)"
        "index_in_range (numnormals c) (args ! 8)"
        by (simp_all add: face_in_range_def Let_def t_def[symmetric] f args_def[symmetric])
      have lens: "int (length (verts st)) = 3 * numverts c"
         "int (length (normals st)) = 3 * numnormals c"
         "int (length (texcoords st)) = 2 * numtexcoords c"
        using inv by (simp_all add: pass_inv_def)
      obtain fd where fd: "face_data (verts st) (normals st) (texcoords st)
           (int_arg (args ! 0) - 1) (int_arg (args ! 1) - 1) (int_arg (args ! 2) - 1)
           (int_arg (args ! 3) - 1) (int_arg (args ! 4) - 1) (int_arg (args ! 5) - 1)
           (int_arg (args ! 6) - 1) (int_arg (args ! 7) - 1) (int_arg (args ! 8) - 1) = Inr fd"
          "length fd = 24"
        using face_data_ok[OF lens, of "int_arg (args ! 0) - 1" "int_arg (args ! 1) - 1" "int_arg (args ! 2) - 1"
           "int_arg (args ! 3) - 1" "int_arg (args ! 4) - 1" "int_arg (args ! 5) - 1"
           "int_arg (args ! 6) - 1" "int_arg (args ! 7) - 1" "int_arg (args ! 8) - 1"] rng
        by (auto simp: index_in_range_def)
      have iff: "0 \<le> i_f st" "i_f st + 1 + tag_count sf ''f'' rest \<le> numfaces c"
          "int (length (st_vertexarray st)) = 8 * 3 * numfaces c"
          "int (length (st_indexarray st)) = 3 * numfaces c"
        using inv by (simp_all add: pass_inv_def tc f)
      obtain va' where va': "store (st_vertexarray st) (8 * 3 * i_f st) fd = Inr va'"
          "length va' = length (st_vertexarray st)"
        using store_length[of "8 * 3 * i_f st" fd "st_vertexarray st"] iff nn[of "''f''"] fd(2)
        by auto
      obtain ia' where ia': "store (st_indexarray st) (3 * i_f st)
            (map word_of_int [3 * i_f st, 3 * i_f st + 1, 3 * i_f st + 2]) = Inr ia'"
          "length ia' = length (st_indexarray st)"
        using store_length[of "3 * i_f st" "map word_of_int [3 * i_f st, 3 * i_f st + 1, 3 * i_f st + 2] :: GLuint list"
                 "st_indexarray st"] iff nn[of "''f''"]
        by auto
      have "parse_line sf (c_str l) st
          = Inr (st\<lparr>st_vertexarray := va', st_indexarray := ia', i_f := i_f st + 1\<rparr>)"
        using True fd(1) va'(1) ia'(1)
        by (simp add: parse_line_def Let_def t_def[symmetric] f args_def[symmetric])
      moreover have "pass_inv sf c rest (st\<lparr>st_vertexarray := va', st_indexarray := ia', i_f := i_f st + 1\<rparr>)"
        using inv va'(2) ia'(2) by (simp add: pass_inv_def tc f)
      ultimately show ?thesis by blast
    qed
  next
    case other
    then have "parse_line sf (c_str l) st = Inr st"
      unfolding t_def by (rule parse_line_ignored)
    moreover have "pass_inv sf c rest st"
      using inv other by (auto simp: pass_inv_def tc recognized_def)
    ultimately show ?thesis by blast
  qed
qed

lemma parse_pass_safe:
  "pass_inv sf c ls st \<Longrightarrow> (\<forall>l\<in>set ls. face_in_range sf c (c_str l)) \<Longrightarrow>
     \<exists>st'. parse_pass sf ls st = Inr st'"
proof (induction ls arbitrary: st)
  case Nil
  then show ?case by simp
next
  case (Cons l ls)
  from parse_line_step[OF Cons.prems(1)] Cons.prems(2) obtain st1 where
    st1: "parse_line sf (c_str l) st = Inr st1" "readerror st1 \<or> pass_inv sf c ls st1"
    by auto
  show ?case
  proof (cases "readerror st1")
    case True
    then show ?thesis using st1(1) by simp
  next
    case False
    then have "pass_inv sf c ls st1" using st1(2) by simp
    from Cons.IH[OF this] Cons.prems(2) obtain st' where "parse_pass sf ls st1 = Inr st'" by auto
    then show ?thesis using st1(1) False by simp
  qed
qed

lemma readOBJ_safe:
  assumes "fs filename = Some content"
    and ok: "int_ok (3 * numverts (first_pass sf tag0 content))"
       "int_ok (3 * numnormals (first_pass sf tag0 content))"
       "int_ok (2 * numtexcoords (first_pass sf tag0 content))"
       "int_ok (8 * 3 * numfaces (first_pass sf tag0 content))"
    and faces: "\<forall>l\<in>set (file_lines content). face_in_range sf (first_pass sf tag0 content) (c_str l)"
  shows "\<exists>msgs soup'. readOBJ fs sf tag0 filename soup = Inr (msgs, soup')"
proof -
  define c where "c = first_pass sf tag0 content"
  define st0 where "st0 = \<lparr>i_v = 0, i_n = 0, i_t = 0, i_f = 0,
                       verts = replicate (nat (3 * numverts c)) 0,
                       normals = replicate (nat (3 * numnormals c)) 0,
                       texcoords = replicate (nat (2 * numtexcoords c)) 0,
                       st_vertexarray = resize (nat (8 * 3 * numfaces c)) (vertexarray soup),
                       st_indexarray = resize (nat (3 * numfaces c)) (indexarray soup),
                       readerror = False, cerr = []\<rparr>"
  have ge: "tag_count sf ''v'' (file_lines content) \<le> numverts c"
      "tag_count sf ''vn'' (file_lines content) \<le> numnormals c"
      "tag_count sf ''vt'' (file_lines content) \<le> numtexcoords c"
      "tag_count sf ''f'' (file_lines content) \<le> numfaces c"
    using count_pass_ge[of "\<lparr>numverts = 0, numnormals = 0, numtexcoords = 0, numfaces = 0\<rparr>"
            sf "file_lines content" tag0]
    by (simp_all add: c_def first_pass_def)
  have nonneg: "0 \<le> numverts c" "0 \<le> numnormals c" "0 \<le> numtexcoords c" "0 \<le> numfaces c"
    using ge tag_count_nonneg[of sf _ "file_lines content"] by (meson order_trans)+
  have "pass_inv sf c (file_lines content) st0"
    using ge nonneg by (simp add: pass_inv_def st0_def)
  from parse_pass_safe[OF this] faces obtain st where
    "parse_pass sf (file_lines content) st0 = Inr st"
    by (auto simp: c_def)
  then show ?thesis
    using assms(1) ok
    unfolding readOBJ_def Let_def first_pass_def[symmetric] c_def[symmetric] st0_def
    by (auto simp: c_def)
qed

subsection \<open>readOBJ: a line that ends the import is reached\<close>




subsection \<open>readOBJ: lines with other tags\<close>






subsection \<open>The example files\<close>

lemma two_triangles_result:
  "readOBJ [''mesh.obj'' \<mapsto> two_triangles_obj] strtof_dec [] ''mesh.obj'' empty_soup =
     Inr ([], \<lparr>nverts = 6, ntris = 2,
               vertexarray = [0, 0, 0, 0, 0, 1, 0, 0,
                              1, 0, 0, 0, 0, 1, 1, 0,
                              1, 1, 0, 0, 0, 1, 1, 1,
                              0, 0, 0, 0, 0, 1, 0, 0,
                              1, 1, 0, 0, 0, 1, 1, 1,
                              0, 1, 0, 0, 0, 1, 0, 1],
               indexarray = [0, 1, 2, 3, 4, 5]\<rparr>)"
  by code_simp

lemma two_triangles_ok:
  "int_ok (3 * numverts (first_pass strtof_dec [] two_triangles_obj)) \<and>
   int_ok (3 * numnormals (first_pass strtof_dec [] two_triangles_obj)) \<and>
   int_ok (2 * numtexcoords (first_pass strtof_dec [] two_triangles_obj)) \<and>
   int_ok (8 * 3 * numfaces (first_pass strtof_dec [] two_triangles_obj)) \<and>
   list_all (\<lambda>l. face_in_range strtof_dec (first_pass strtof_dec [] two_triangles_obj) (c_str l))
     (file_lines two_triangles_obj)"
  by code_simp








lemma dangling_lines: "file_lines dangling_face_obj = [''f 1/1/1 1/1/1 1/1/1\<newline>'']"
  by code_simp

lemma dangling_tag: "scan_tag sf tag (c_str ''f 1/1/1 1/1/1 1/1/1\<newline>'') = ''f''"
  by (simp add: scan_tag_def fmt_tag_def c_str_def isspace_def Let_def)

lemma dangling_args:
  "sscanf sf fmt_f (c_str ''f 1/1/1 1/1/1 1/1/1\<newline>'') =
     [Int_arg 1, Int_arg 1, Int_arg 1, Int_arg 1, Int_arg 1, Int_arg 1, Int_arg 1, Int_arg 1, Int_arg 1]"
  by (simp add: fmt_f_def c_str_def isspace_def scan_int_def scan_sign_def isdigit_def decimal_def Let_def)

lemma dangling_not_malformed: "\<not> malformed sf (c_str ''f 1/1/1 1/1/1 1/1/1\<newline>'')"
  by (simp add: malformed_def dangling_tag dangling_args Let_def)

lemma dangling_result:
  "readOBJ [''mesh.obj'' \<mapsto> dangling_face_obj] sf tag0 ''mesh.obj'' soup = Inl OutOfBounds"
  by (simp add: readOBJ_def dangling_lines dangling_tag dangling_args Let_def int_ok_def
        parse_line_def face_data_def load_def)

subsection \<open>The claims about readOBJ\<close>

text \<open>
  C2. A face line with four index triples should end the import with an empty mesh
  ("Accept only triangles. Quads cause an error."). It does not: \<open>sscanf\<close> stops after
  the ninth conversion and returns 9 for such a line, so that the file \<open>quad_obj\<close>,
  whose only face is a quad, is read without any message, and the mesh has one
  triangle, made of the first three corners of the quad.
\<close>

theorem readOBJ_quad_accepted:
  "readOBJ [''quad.obj'' \<mapsto> quad_obj] strtof_dec [] ''quad.obj'' empty_soup =
     Inr ([], \<lparr>nverts = 3, ntris = 1,
               vertexarray = [0, 0, 0, 0, 0, 1, 0, 0,
                              1, 0, 0, 0, 0, 1, 0, 0,
                              1, 1, 0, 0, 0, 1, 0, 0],
               indexarray = [0, 1, 2]\<rparr>)"
  by code_simp

text \<open>
  C4, as amended. When the file cannot be opened, \<open>readOBJ\<close> writes the message "File
  not found" and returns at once: the object is left as it was before the call, empty
  only if it was empty. After \<open>createTriangle\<close> it still holds the triangle.
\<close>

theorem readOBJ_file_not_found:
  "fs filename = None \<Longrightarrow>
     readOBJ fs sf tag0 filename soup = Inr ([File_not_found filename], soup)"
  by (simp add: readOBJ_def)

theorem readOBJ_file_not_found_witness:
  "(Map.empty :: char filesystem) ''missing.obj'' = None \<and>
   readOBJ Map.empty strtof_dec [] ''missing.obj'' empty_soup =
     Inr ([File_not_found ''missing.obj''], empty_soup)"
  using readOBJ_file_not_found [of Map.empty "''missing.obj''" strtof_dec "[]" empty_soup]
  by simp

theorem readOBJ_file_not_found_counterexample:
  "createTriangle empty_soup = Inr triangle_soup \<and>
   readOBJ Map.empty strtof_dec [] ''missing.obj'' triangle_soup =
     Inr ([File_not_found ''missing.obj''], triangle_soup) \<and>
   nverts triangle_soup = 3 \<and> ntris triangle_soup = 1 \<and>
   length (vertexarray triangle_soup) = 24 \<and> length (indexarray triangle_soup) = 3"
  by (simp add: createTriangle_eq readOBJ_def triangle_soup_def empty_soup_def
        triangle_vertex_array_data_def triangle_index_array_data_def)

lemma createSphere_mesh_inv:
  assumes "createSphere radius segments soup = Inr soup'"
  shows "mesh_inv soup'"
proof (cases "segments \<le> 11585")
  case True
  from createSphere_ok[OF True, of radius soup] assms show ?thesis
    by (auto simp: mesh_inv_def ia_inv_def)
next
  case False
  then have "createSphere radius segments soup = Inl SignedOverflow"
    by (intro createSphere_overflow) simp
  then show ?thesis using assms by simp
qed

text \<open>
  C5. Every mesh that one of the four operations produces has an index array of three
  times its triangle count and a vertex array of eight times its vertex count.
  \<open>createTriangle\<close> and \<open>createBox\<close> always produce one. \<open>createSphere\<close> produces one
  for up to 11585 segments, and \<open>readOBJ\<close> for a file whose sizes fit an \<open>int\<close> and
  whose face indices are in range; whenever they return an object, it has these sizes.
  When \<open>readOBJ\<close> cannot open the file it produces no mesh, and the object keeps the
  sizes it had.
\<close>

theorem generated_mesh_sizes:
  "(\<exists>s. createTriangle soup = Inr s \<and> mesh_inv s) \<and>
   (\<exists>s. createBox xsize ysize zsize soup = Inr s \<and> mesh_inv s) \<and>
   (\<forall>s. createSphere radius segments soup = Inr s \<longrightarrow> mesh_inv s) \<and>
   (segments \<le> 11585 \<longrightarrow> (\<exists>s. createSphere radius segments soup = Inr s)) \<and>
   (\<forall>msgs s. fs filename \<noteq> None \<or> mesh_inv soup \<longrightarrow>
      readOBJ fs sf tag0 filename soup = Inr (msgs, s) \<longrightarrow> mesh_inv s) \<and>
   (\<forall>content.
      fs filename = Some content \<and>
      int_ok (3 * numverts (first_pass sf tag0 content)) \<and>
      int_ok (3 * numnormals (first_pass sf tag0 content)) \<and>
      int_ok (2 * numtexcoords (first_pass sf tag0 content)) \<and>
      int_ok (8 * 3 * numfaces (first_pass sf tag0 content)) \<and>
      list_all (\<lambda>l. face_in_range sf (first_pass sf tag0 content) (c_str l)) (file_lines content) \<longrightarrow>
      (\<exists>msgs s. readOBJ fs sf tag0 filename soup = Inr (msgs, s)))"
proof (intro conjI allI impI)
  show "\<exists>s. createTriangle soup = Inr s \<and> mesh_inv s"
    by (simp add: createTriangle_eq mesh_inv_def triangle_vertex_array_data_def
          triangle_index_array_data_def)
  show "\<exists>s. createBox xsize ysize zsize soup = Inr s \<and> mesh_inv s"
    by (simp add: createBox_eq mesh_inv_def box_vertex_array_data_def box_index_array_data_def)
  show "mesh_inv s" if "createSphere radius segments soup = Inr s" for s
    using that by (rule createSphere_mesh_inv)
  show "\<exists>s. createSphere radius segments soup = Inr s" if "segments \<le> 11585"
    using createSphere_ok[OF that, of radius soup] by blast
  show "mesh_inv s"
    if "fs filename \<noteq> None \<or> mesh_inv soup" "readOBJ fs sf tag0 filename soup = Inr (msgs, s)"
    for msgs s
  proof (cases "fs filename")
    case None
    then show ?thesis using that by (simp add: readOBJ_not_found)
  next
    case (Some content)
    then show ?thesis using that(2) by (rule readOBJ_found_mesh_inv)
  qed
  show "\<exists>msgs s. readOBJ fs sf tag0 filename soup = Inr (msgs, s)"
    if a: "fs filename = Some content \<and>
      int_ok (3 * numverts (first_pass sf tag0 content)) \<and>
      int_ok (3 * numnormals (first_pass sf tag0 content)) \<and>
      int_ok (2 * numtexcoords (first_pass sf tag0 content)) \<and>
      int_ok (8 * 3 * numfaces (first_pass sf tag0 content)) \<and>
      list_all (\<lambda>l. face_in_range sf (first_pass sf tag0 content) (c_str l)) (file_lines content)"
    for content
  proof -
    from a have f: "fs filename = Some content"
      and faces: "\<forall>l\<in>set (file_lines content). face_in_range sf (first_pass sf tag0 content) (c_str l)"
      by (simp_all add: list_all_iff)
    from a show ?thesis
      by (intro readOBJ_safe[where fs = fs and filename = filename and soup = soup, OF f _ _ _ _ faces])
         simp_all
  qed
qed

theorem generated_mesh_sizes_witness:
  "(\<exists>s. createTriangle empty_soup = Inr s \<and> mesh_inv s) \<and>
   (\<exists>s. createBox 1 1 1 empty_soup = Inr s \<and> mesh_inv s) \<and>
   (2 :: int) \<le> 11585 \<and>
   (\<exists>s. createSphere 1 2 empty_soup = Inr s \<and> mesh_inv s \<and> nverts s = 7 \<and> ntris s = 8) \<and>
   [''mesh.obj'' \<mapsto> two_triangles_obj] ''mesh.obj'' = Some two_triangles_obj \<and>
   int_ok (3 * numverts (first_pass strtof_dec [] two_triangles_obj)) \<and>
   int_ok (3 * numnormals (first_pass strtof_dec [] two_triangles_obj)) \<and>
   int_ok (2 * numtexcoords (first_pass strtof_dec [] two_triangles_obj)) \<and>
   int_ok (8 * 3 * numfaces (first_pass strtof_dec [] two_triangles_obj)) \<and>
   list_all (\<lambda>l. face_in_range strtof_dec (first_pass strtof_dec [] two_triangles_obj) (c_str l))
     (file_lines two_triangles_obj) \<and>
   (\<exists>msgs s. readOBJ [''mesh.obj'' \<mapsto> two_triangles_obj] strtof_dec [] ''mesh.obj'' empty_soup
                = Inr (msgs, s) \<and> mesh_inv s \<and> nverts s = 6 \<and> ntris s = 2)"
proof -
  note g = generated_mesh_sizes [of empty_soup 1 1 1 1 2 "[''mesh.obj'' \<mapsto> two_triangles_obj]"
             "''mesh.obj''" strtof_dec "[]"]
  have h: "(2 :: int) \<le> 11585" by simp
  from sphere2_indices obtain vs where vs: "createSphere 1 2 empty_soup =
      Inr \<lparr>nverts = 7, ntris = 8, vertexarray = vs,
           indexarray = [0, 1, 2, 0, 2, 3, 0, 3, 4, 0, 4, 5, 6, 5, 4, 6, 4, 3, 6, 3, 2, 6, 2, 1]\<rparr>"
    by blast
  have sph: "\<exists>s. createSphere 1 2 empty_soup = Inr s \<and> mesh_inv s \<and> nverts s = 7 \<and> ntris s = 8"
    using g vs by simp
  have f: "[''mesh.obj'' \<mapsto> two_triangles_obj] ''mesh.obj'' = Some two_triangles_obj" by simp
  have obj: "\<exists>msgs s. readOBJ [''mesh.obj'' \<mapsto> two_triangles_obj] strtof_dec [] ''mesh.obj'' empty_soup
                = Inr (msgs, s) \<and> mesh_inv s \<and> nverts s = 6 \<and> ntris s = 2"
    using g two_triangles_result by simp
  show ?thesis
    using g h sph f two_triangles_ok obj by blast
qed




text \<open>
  C9. The indices of a face line are used as they are read. When the nine indices lie
  within the counts of the first loop, the reads of the three temporary arrays are
  inside them; and when this is so for every face line of a file whose sizes fit an
  \<open>int\<close>, \<open>readOBJ\<close> returns without any access outside an array. An index outside
  the counts is not rejected: the file \<open>dangling_face_obj\<close>, a face line without any
  \<open>v\<close> line, passes the test of the number of values and reads outside the arrays.
\<close>

theorem readOBJ_face_indices_unchecked:
  "(\<forall>vs ns ts nv nt nn v1 t1 n1 v2 t2 n2 v3 t3 n3.
      int (length vs) = 3 * nv \<and> int (length ns) = 3 * nn \<and> int (length ts) = 2 * nt \<and>
      1 \<le> v1 \<and> v1 \<le> nv \<and> 1 \<le> t1 \<and> t1 \<le> nt \<and> 1 \<le> n1 \<and> n1 \<le> nn \<and>
      1 \<le> v2 \<and> v2 \<le> nv \<and> 1 \<le> t2 \<and> t2 \<le> nt \<and> 1 \<le> n2 \<and> n2 \<le> nn \<and>
      1 \<le> v3 \<and> v3 \<le> nv \<and> 1 \<le> t3 \<and> t3 \<le> nt \<and> 1 \<le> n3 \<and> n3 \<le> nn \<longrightarrow>
      (\<exists>fd. face_data vs ns ts (v1 - 1) (t1 - 1) (n1 - 1) (v2 - 1) (t2 - 1) (n2 - 1)
                (v3 - 1) (t3 - 1) (n3 - 1) = Inr fd \<and> length fd = 24)) \<and>
   (\<forall>fs filename content sf tag0 soup.
      fs filename = Some content \<and>
      int_ok (3 * numverts (first_pass sf tag0 content)) \<and>
      int_ok (3 * numnormals (first_pass sf tag0 content)) \<and>
      int_ok (2 * numtexcoords (first_pass sf tag0 content)) \<and>
      int_ok (8 * 3 * numfaces (first_pass sf tag0 content)) \<and>
      list_all (\<lambda>l. face_in_range sf (first_pass sf tag0 content) (c_str l)) (file_lines content) \<longrightarrow>
      (\<exists>msgs soup'. readOBJ fs sf tag0 filename soup = Inr (msgs, soup'))) \<and>
   (\<forall>sf tag0 soup.
      file_lines dangling_face_obj = [''f 1/1/1 1/1/1 1/1/1\<newline>''] \<and>
      numverts (first_pass sf tag0 dangling_face_obj) = 0 \<and>
      \<not> malformed sf (c_str ''f 1/1/1 1/1/1 1/1/1\<newline>'') \<and>
      readOBJ [''mesh.obj'' \<mapsto> dangling_face_obj] sf tag0 ''mesh.obj'' soup = Inl OutOfBounds)"
proof (intro conjI allI impI)
  fix vs ns ts :: "GLfloat list" and nv nt nn v1 t1 n1 v2 t2 n2 v3 t3 n3 :: int
  assume a: "int (length vs) = 3 * nv \<and> int (length ns) = 3 * nn \<and> int (length ts) = 2 * nt \<and>
      1 \<le> v1 \<and> v1 \<le> nv \<and> 1 \<le> t1 \<and> t1 \<le> nt \<and> 1 \<le> n1 \<and> n1 \<le> nn \<and>
      1 \<le> v2 \<and> v2 \<le> nv \<and> 1 \<le> t2 \<and> t2 \<le> nt \<and> 1 \<le> n2 \<and> n2 \<le> nn \<and>
      1 \<le> v3 \<and> v3 \<le> nv \<and> 1 \<le> t3 \<and> t3 \<le> nt \<and> 1 \<le> n3 \<and> n3 \<le> nn"
  then have lens: "int (length vs) = 3 * nv" "int (length ns) = 3 * nn" "int (length ts) = 2 * nt"
    by simp_all
  from a show "\<exists>fd. face_data vs ns ts (v1 - 1) (t1 - 1) (n1 - 1) (v2 - 1) (t2 - 1) (n2 - 1)
                (v3 - 1) (t3 - 1) (n3 - 1) = Inr fd \<and> length fd = 24"
    by (intro face_data_ok[OF lens]) simp_all
next
  fix fs :: "char filesystem" and filename content sf tag0 and soup :: TriangleSoup
  assume a: "fs filename = Some content \<and>
      int_ok (3 * numverts (first_pass sf tag0 content)) \<and>
      int_ok (3 * numnormals (first_pass sf tag0 content)) \<and>
      int_ok (2 * numtexcoords (first_pass sf tag0 content)) \<and>
      int_ok (8 * 3 * numfaces (first_pass sf tag0 content)) \<and>
      list_all (\<lambda>l. face_in_range sf (first_pass sf tag0 content) (c_str l)) (file_lines content)"
  then have f: "fs filename = Some content"
    and faces: "\<forall>l\<in>set (file_lines content). face_in_range sf (first_pass sf tag0 content) (c_str l)"
    by (simp_all add: list_all_iff)
  from a show "\<exists>msgs soup'. readOBJ fs sf tag0 filename soup = Inr (msgs, soup')"
    by (intro readOBJ_safe[where fs = fs and filename = filename and soup = soup, OF f _ _ _ _ faces])
       simp_all
next
  fix sf :: float_scanner and tag0 :: string and soup :: TriangleSoup
  show "file_lines dangling_face_obj = [''f 1/1/1 1/1/1 1/1/1\<newline>'']"
    by (rule dangling_lines)
  show "numverts (first_pass sf tag0 dangling_face_obj) = 0"
    by (simp add: first_pass_def dangling_lines dangling_tag Let_def)
  show "\<not> malformed sf (c_str ''f 1/1/1 1/1/1 1/1/1\<newline>'')"
    by (rule dangling_not_malformed)
  show "readOBJ [''mesh.obj'' \<mapsto> dangling_face_obj] sf tag0 ''mesh.obj'' soup = Inl OutOfBounds"
    by (rule dangling_result)
qed

theorem readOBJ_face_indices_unchecked_witness:
  "int (length [0, 0, 0 :: GLfloat]) = 3 * 1 \<and> int (length [0, 0, 1 :: GLfloat]) = 3 * 1 \<and>
   int (length [0.5, 0.25 :: GLfloat]) = 2 * 1 \<and>
   face_data [0, 0, 0] [0, 0, 1] [0.5, 0.25] (1 - 1) (1 - 1) (1 - 1) (1 - 1) (1 - 1) (1 - 1)
      (1 - 1) (1 - 1) (1 - 1) =
     Inr [0, 0, 0, 0, 0, 1, 0.5, 0.25, 0, 0, 0, 0, 0, 1, 0.5, 0.25, 0, 0, 0, 0, 0, 1, 0.5, 0.25] \<and>
   [''mesh.obj'' \<mapsto> two_triangles_obj] ''mesh.obj'' = Some two_triangles_obj \<and>
   int_ok (3 * numverts (first_pass strtof_dec [] two_triangles_obj)) \<and>
   int_ok (3 * numnormals (first_pass strtof_dec [] two_triangles_obj)) \<and>
   int_ok (2 * numtexcoords (first_pass strtof_dec [] two_triangles_obj)) \<and>
   int_ok (8 * 3 * numfaces (first_pass strtof_dec [] two_triangles_obj)) \<and>
   list_all (\<lambda>l. face_in_range strtof_dec (first_pass strtof_dec [] two_triangles_obj) (c_str l))
     (file_lines two_triangles_obj) \<and>
   (\<exists>msgs soup'. readOBJ [''mesh.obj'' \<mapsto> two_triangles_obj] strtof_dec [] ''mesh.obj'' empty_soup
       = Inr (msgs, soup')) \<and>
   readOBJ [''mesh.obj'' \<mapsto> dangling_face_obj] strtof_dec [] ''mesh.obj'' empty_soup = Inl OutOfBounds"
proof -
  note t = readOBJ_face_indices_unchecked
  have fd: "face_data [0, 0, 0] [0, 0, 1] [0.5, 0.25] (1 - 1) (1 - 1) (1 - 1) (1 - 1) (1 - 1) (1 - 1)
      (1 - 1) (1 - 1) (1 - 1) =
     Inr [0, 0, 0, 0, 0, 1, 0.5, 0.25, 0, 0, 0, 0, 0, 1, 0.5, 0.25, 0, 0, 0, 0, 0, 1, 0.5, 0.25]"
    by (simp add: face_data_def load_def)
  have f: "[''mesh.obj'' \<mapsto> two_triangles_obj] ''mesh.obj'' = Some two_triangles_obj" by simp
  have "\<exists>msgs soup'. readOBJ [''mesh.obj'' \<mapsto> two_triangles_obj] strtof_dec [] ''mesh.obj'' empty_soup
       = Inr (msgs, soup')"
    using t [THEN conjunct2, THEN conjunct1, rule_format,
             of "[''mesh.obj'' \<mapsto> two_triangles_obj]" "''mesh.obj''" two_triangles_obj strtof_dec "[]"
                empty_soup]
          f two_triangles_ok
    by blast
  moreover have "readOBJ [''mesh.obj'' \<mapsto> dangling_face_obj] strtof_dec [] ''mesh.obj'' empty_soup
      = Inl OutOfBounds"
    using t [THEN conjunct2, THEN conjunct2, rule_format, of strtof_dec "[]" empty_soup] by blast
  ultimately show ?thesis
    using fd f two_triangles_ok by simp
qed

end
